theory Spec2Isabelle
  imports Complex_Main "HOL-Library.Sublist"
begin

section \<open>The bounding-box restaurant finder (\<open>boundingBoxesTool\<close>)\<close>

text \<open>
  A shallow embedding of the tool defined in \<^verbatim>\<open>boundingBoxes.ts\<close>: the retry loop
  around the Supabase query, the split of every returned box into four quadrants, the
  nearby search per quadrant and the flattening of the place ids.

  A JavaScript number is a double: a finite value, an infinity or \<open>NaN\<close>, with every
  arithmetic result rounded to the nearest double. A nullable value is an
  \<^typ>\<open>'a option\<close> with \<open>None\<close> for \<open>null\<close>. A thrown exception is the \<open>Inl\<close> of a
  sum type. The database, the places service and the globals of the runtime are outside
  the program; they are parameters of the model.
\<close>

subsection \<open>Numbers\<close>

text \<open>
  The values of the type \<open>number\<close>. A finite double is given by the rational it denotes
  (not every rational is a double; the results of the arithmetic below always are). The
  two zeros are one value, as they are for \<open>===\<close> and for every comparison.
\<close>

datatype number = NaN | PInf | NInf | Fin rat

text \<open>
  Rounding of a rational to the nearest double (IEEE 754 binary64, ties to even):
  53 significant bits, exponents from \<open>-1022\<close> to \<open>1023\<close>, gradual underflow below
  \<open>2 powi -1022\<close> and overflow to an infinity from \<open>2 powi 1024\<close> on. \<open>bit_length n\<close> is
  the number of binary digits of \<open>n\<close>, \<open>ilog2 x\<close> the exponent \<open>e\<close> with
  \<open>2 powi e \<le> x < 2 powi (e + 1)\<close> for positive \<open>x\<close>.
\<close>

function bit_length :: "int \<Rightarrow> int" where
  "bit_length n = (if n \<le> 0 then 0 else 1 + bit_length (n div 2))"
  by pat_completeness auto
termination
  by (relation "measure nat") auto

definition ilog2 :: "rat \<Rightarrow> int" where
  "ilog2 x =
     (let (a, b) = quotient_of x;
          d = bit_length a - bit_length b
      in if 2 powi d \<le> x then d else d - 1)"

definition round_half_even :: "rat \<Rightarrow> int" where
  "round_half_even q =
     (let f = \<lfloor>q\<rfloor>; r = q - of_int f
      in if r < 1 / 2 then f else if 1 / 2 < r then f + 1 else if even f then f else f + 1)"

definition round_binary64 :: "rat \<Rightarrow> number" where
  "round_binary64 x =
     (if x = 0 then Fin 0
      else
        let e = max (ilog2 \<bar>x\<bar>) (- 1022);
            ulp = 2 powi (e - 52);
            y = of_int (round_half_even (\<bar>x\<bar> / ulp)) * ulp
        in if 2 powi 1024 \<le> y then (if 0 < x then PInf else NInf)
           else Fin (if 0 < x then y else - y))"

text \<open>
  The same rounding in two steps, for the proofs: the unit in the last place of a
  positive rational and the magnitude that rounding gives it. A rational is a double
  when rounding leaves it unchanged.
\<close>

definition ulp_of :: "rat \<Rightarrow> rat" where
  "ulp_of x = 2 powi (max (ilog2 x) (- 1022) - 52)"

definition magnitude :: "rat \<Rightarrow> rat" where
  "magnitude x = of_int (round_half_even (x / ulp_of x)) * ulp_of x"

definition is_double :: "rat \<Rightarrow> bool" where
  "is_double x = (round_binary64 x = Fin x)"

text \<open>
  The operator \<open>+\<close> on numbers, and the division by the literal \<open>2\<close>, the only division in
  the program. Both round the exact result.
\<close>

fun add :: "number \<Rightarrow> number \<Rightarrow> number" where
  "add NaN n = NaN"
| "add n NaN = NaN"
| "add PInf NInf = NaN"
| "add NInf PInf = NaN"
| "add PInf n = PInf"
| "add n PInf = PInf"
| "add NInf n = NInf"
| "add n NInf = NInf"
| "add (Fin a) (Fin b) = round_binary64 (a + b)"

fun halve :: "number \<Rightarrow> number" where
  "halve (Fin a) = round_binary64 (a / 2)"
| "halve n = n"

text \<open>The comparisons \<open>\<le>\<close> and \<open><\<close> of numbers; every comparison with \<open>NaN\<close> is false.\<close>

fun le :: "number \<Rightarrow> number \<Rightarrow> bool" where
  "le NaN n = False"
| "le n NaN = False"
| "le NInf n = True"
| "le n PInf = True"
| "le (Fin a) (Fin b) = (a \<le> b)"
| "le n m = False"

fun lt :: "number \<Rightarrow> number \<Rightarrow> bool" where
  "lt NaN n = False"
| "lt n NaN = False"
| "lt PInf n = False"
| "lt n NInf = False"
| "lt NInf n = True"
| "lt n PInf = True"
| "lt (Fin a) (Fin b) = (a < b)"

text \<open>
  An ordinary bound is a finite double of magnitude below \<open>2 ^ 1023\<close>: twice an ordinary
  bound is still finite. Every latitude and longitude is one.
\<close>

fun ordinary :: "number \<Rightarrow> bool" where
  "ordinary (Fin a) = (is_double a \<and> \<bar>a\<bar> < 2 powi 1023)"
| "ordinary n = False"

subsection \<open>Data\<close>

text \<open>
  A row of the table \<open>Bounding Boxes\<close> and a quadrant share the five fields the tool
  reads. In a row the four bounds are nullable and the record is open: the other
  columns of the table (\<open>select("*")\<close> returns all of them) live in the extension part
  of the record scheme. A quadrant is the object literal the subdivision builds, with
  exactly these five fields and numeric bounds.
\<close>

record 'n box =
  COUNTY_NAME :: "string option"
  y_min :: 'n
  y_max :: 'n
  x_min :: 'n
  x_max :: 'n

type_synonym 'm row = "(number option, 'm) box_scheme"
type_synonym quadrant = "number box"

subsection \<open>Array helpers\<close>

definition flat :: "'a list list \<Rightarrow> 'a list" where
  "flat xss = concat xss"

definition flatMap :: "('a \<Rightarrow> 'b list) \<Rightarrow> 'a list \<Rightarrow> 'b list" where
  "flatMap f xs = flat (map f xs)"

subsection \<open>Quadrant subdivision\<close>

text \<open>
  The callback of \<open>boundingBoxes.flatMap\<close>: a box with a \<open>null\<close> bound gives the empty
  array, any other box gives four object literals around the midpoint
  \<open>(y_min + y_max) / 2\<close>, \<open>(x_min + x_max) / 2\<close>.
\<close>

definition divideBox :: "'m row \<Rightarrow> quadrant list" where
  "divideBox b =
     (if y_min b = None \<or> y_max b = None \<or> x_min b = None \<or> x_max b = None then []
      else
        let ymin = the (y_min b); ymax = the (y_max b);
            xmin = the (x_min b); xmax = the (x_max b);
            county = COUNTY_NAME b;
            y_mid = halve (add ymin ymax);
            x_mid = halve (add xmin xmax)
        in [\<lparr>COUNTY_NAME = county, y_min = ymin, y_max = y_mid, x_min = xmin, x_max = x_mid\<rparr>,
            \<lparr>COUNTY_NAME = county, y_min = ymin, y_max = y_mid, x_min = x_mid, x_max = xmax\<rparr>,
            \<lparr>COUNTY_NAME = county, y_min = y_mid, y_max = ymax, x_min = xmin, x_max = x_mid\<rparr>,
            \<lparr>COUNTY_NAME = county, y_min = y_mid, y_max = ymax, x_min = x_mid, x_max = xmax\<rparr>])"

definition dividedBoundingBoxes :: "'m row list \<Rightarrow> quadrant list" where
  "dividedBoundingBoxes boundingBoxes = flatMap divideBox boundingBoxes"

subsection \<open>Geometry of quadrants\<close>

text \<open>
  The points of the plane are pairs \<open>(y, x)\<close> of reals. A bound lies below or above a
  coordinate as its value does; an infinite bound lies beyond every coordinate and
  \<open>NaN\<close> compares with none. The extent of a quadrant is the closed rectangle of the
  points between its bounds; it is empty when a minimum exceeds its maximum. A
  coordinate is on the line of a number when it is the value of that number: two
  rectangles whose common points all lie on one horizontal or one vertical line share
  at most an edge, and their intersection has no area.
\<close>

fun at_most :: "number \<Rightarrow> real \<Rightarrow> bool" where
  "at_most (Fin a) r = (of_rat a \<le> r)"
| "at_most NInf r = True"
| "at_most n r = False"

fun at_least :: "number \<Rightarrow> real \<Rightarrow> bool" where
  "at_least (Fin a) r = (r \<le> of_rat a)"
| "at_least PInf r = True"
| "at_least n r = False"

fun on_line :: "number \<Rightarrow> real \<Rightarrow> bool" where
  "on_line (Fin a) r = (r = of_rat a)"
| "on_line n r = False"

definition inside :: "quadrant \<Rightarrow> real \<times> real \<Rightarrow> bool" where
  "inside q p =
     (at_most (y_min q) (fst p) \<and> at_least (y_max q) (fst p)
      \<and> at_most (x_min q) (snd p) \<and> at_least (x_max q) (snd p))"

definition extent :: "quadrant \<Rightarrow> (real \<times> real) set" where
  "extent q = {p. inside q p}"

definition shared_edge :: "number \<Rightarrow> number \<Rightarrow> (real \<times> real) set \<Rightarrow> bool" where
  "shared_edge y x S = ((\<forall>p\<in>S. on_line y (fst p)) \<or> (\<forall>p\<in>S. on_line x (snd p)))"

subsection \<open>Exceptions and console output\<close>

text \<open>
  A thrown value is an object with a \<open>message\<close>: an \<open>Error\<close> built by the tool, the
  error object the database client reports, or the \<open>ReferenceError\<close> of the runtime for
  an unbound global; thrown values are told apart by their messages. The console is the
  list of the lines written so far, oldest first; the second argument of \<open>console.log\<close>
  is kept as a value.
\<close>

datatype js_error = Error (message: string)

datatype 'm console_line =
    Log string
  | LogResult string "'m row list option"
  | Warn string
  | ConsoleError string

text \<open>The decimal digits of a number interpolated into a template literal.\<close>

definition digit :: "nat \<Rightarrow> char" where
  "digit d = ''0123456789'' ! d"

function toString :: "nat \<Rightarrow> string" where
  "toString n = (if n < 10 then [digit n] else toString (n div 10) @ [digit (n mod 10)])"
  by pat_completeness auto
termination
  by (relation "measure (\<lambda>n. n)") auto

subsection \<open>The database\<close>

text \<open>
  The query the tool builds with the Supabase client, as the chain of calls that builds
  it. What the database makes of it is outside the program: the store is a parameter
  that gives, for the \<open>n\<close>-th query of an invocation, either a rejected promise (\<open>Inl\<close>)
  or the resolved object with its fields \<open>data\<close> and \<open>error\<close>.
\<close>

record query =
  from_table :: string
  select_columns :: string
  ilike :: "string \<times> string"
  limit :: nat

definition boundingBoxesQuery :: "string \<Rightarrow> query" where
  "boundingBoxesQuery state =
     \<lparr>from_table = ''Bounding Boxes'', select_columns = ''*'',
      ilike = (''STATE_NAME'', state), limit = 1\<rparr>"

record 'm response =
  data :: "'m row list option"
  error :: "js_error option"

type_synonym 'm outcome = "js_error + 'm response"
type_synonym 'm store = "nat \<Rightarrow> query \<Rightarrow> 'm outcome"

subsection \<open>The retry loop\<close>

definition maxRetries :: nat where
  "maxRetries = 3"

text \<open>
  The body of the \<open>try\<close> block for the attempt numbered \<open>attempt\<close> (already
  incremented). It returns \<open>Inl\<close> of the thrown value or \<open>Inr ()\<close> when it reaches
  \<open>break\<close>, together with the variable \<open>boundingBoxes\<close> and the console. The variable is
  assigned after the check of \<open>error\<close> and before the check for an empty result.
\<close>

definition try_body ::
  "'m store \<Rightarrow> string \<Rightarrow> nat \<Rightarrow> 'm row list option \<Rightarrow> 'm console_line list
   \<Rightarrow> (js_error + unit) \<times> 'm row list option \<times> 'm console_line list" where
  "try_body store state attempt boundingBoxes console =
     (let console1 = console @
            [Log (''Attempt '' @ toString attempt @
                  '': Querying bounding boxes for state: '' @ state)]
      in case store attempt (boundingBoxesQuery state) of
           Inl rejected \<Rightarrow> (Inl rejected, boundingBoxes, console1)
         | Inr res \<Rightarrow>
             (case error res of
                Some err \<Rightarrow> (Inl err, boundingBoxes, console1)
              | None \<Rightarrow>
                  let boundingBoxes' = data res;
                      console2 = console1 @
                        [LogResult (''Attempt '' @ toString attempt @ '': Query result:'')
                           boundingBoxes']
                  in if boundingBoxes' = None \<or> boundingBoxes' = Some [] then
                       (Inl (Error (''No bounding boxes found for state: '' @ state)),
                        boundingBoxes',
                        console2 @
                          [Warn (''Attempt '' @ toString attempt @
                                 '': No bounding boxes found for state: '' @ state)])
                     else (Inr (), boundingBoxes', console2)))"

text \<open>
  The \<open>while\<close> loop with its \<open>catch\<close> clause. The result is what leaves the loop (the
  rethrown value, or the variable \<open>boundingBoxes\<close> on \<open>break\<close> or when the condition
  fails), the final value of \<open>attempt\<close> and the console.
\<close>

function retry_loop ::
  "'m store \<Rightarrow> string \<Rightarrow> nat \<Rightarrow> 'm row list option \<Rightarrow> 'm console_line list
   \<Rightarrow> (js_error + 'm row list option) \<times> nat \<times> 'm console_line list" where
  "retry_loop store state attempt boundingBoxes console =
     (if attempt < maxRetries then
        (case try_body store state (attempt + 1) boundingBoxes console of
           (Inr _, boundingBoxes', console') \<Rightarrow> (Inr boundingBoxes', attempt + 1, console')
         | (Inl err, boundingBoxes', console') \<Rightarrow>
             if attempt + 1 \<ge> maxRetries then
               (Inl err, attempt + 1,
                console' @
                  [ConsoleError (''Failed after '' @ toString maxRetries @
                                 '' attempts: '' @ message err)])
             else retry_loop store state (attempt + 1) boundingBoxes' console')
      else (Inr boundingBoxes, attempt, console))"
  by pat_completeness auto
termination
  by (relation "measure (\<lambda>(store, state, attempt, boundingBoxes, console). maxRetries - attempt)")
     auto

text \<open>
  The lookup: the loop started with \<open>attempt = 0\<close> and \<open>boundingBoxes = null\<close>, followed by
  the check that \<open>boundingBoxes\<close> is not \<open>null\<close>.
\<close>

definition lookup ::
  "'m store \<Rightarrow> string \<Rightarrow> (js_error + 'm row list) \<times> nat \<times> 'm console_line list" where
  "lookup store state =
     (case retry_loop store state 0 None [] of
        (Inl err, attempt, console) \<Rightarrow> (Inl err, attempt, console)
      | (Inr None, attempt, console) \<Rightarrow>
          (Inl (Error ''Bounding boxes data is null''), attempt, console)
      | (Inr (Some boundingBoxes), attempt, console) \<Rightarrow> (Inr boundingBoxes, attempt, console))"

text \<open>
  The specification's notion of a failed attempt: the query errors (the promise rejects
  or the resolved object carries an error) or it returns no rows.
\<close>

definition attempt_failed :: "'m outcome \<Rightarrow> bool" where
  "attempt_failed out =
     (case out of
        Inl rejected \<Rightarrow> True
      | Inr res \<Rightarrow> error res \<noteq> None \<or> data res = None \<or> data res = Some [])"

text \<open>The value a failed attempt throws.\<close>

definition thrown :: "'m outcome \<Rightarrow> string \<Rightarrow> js_error" where
  "thrown out state =
     (case out of
        Inl rejected \<Rightarrow> rejected
      | Inr res \<Rightarrow>
          (case error res of
             Some err \<Rightarrow> err
           | None \<Rightarrow> Error (''No bounding boxes found for state: '' @ state)))"

text \<open>
  The lines that announce a query: those written by \<open>console.log\<close> with one argument,
  one at the start of every attempt. \<open>querying state n\<close> is the line of attempt \<open>n\<close>.
\<close>

fun announced :: "'m console_line list \<Rightarrow> string list" where
  "announced [] = []"
| "announced (Log s # console) = s # announced console"
| "announced (line # console) = announced console"

definition querying :: "string \<Rightarrow> nat \<Rightarrow> string" where
  "querying state n =
     ''Attempt '' @ toString n @ '': Querying bounding boxes for state: '' @ state"

text \<open>
  The box of the specification's end-to-end example, with the bounds \<open>32.5\<close>, \<open>42\<close>,
  \<open>-124.4\<close> and \<open>-114.1\<close> as the doubles these decimals denote (the first two are
  doubles themselves). A second box has bounds so large that their sum exceeds every
  finite double: \<open>y_min\<close> is \<open>2 ^ 1023\<close> (about \<open>8.99e307\<close>) and \<open>y_max\<close> is
  \<open>3 * 2 ^ 1022\<close> (about \<open>1.35e308\<close>).
\<close>

definition california :: "unit row" where
  "california =
     \<lparr>COUNTY_NAME = None, y_min = Some (Fin 32.5), y_max = Some (Fin 42),
      x_min = Some (round_binary64 (-124.4)), x_max = Some (round_binary64 (-114.1))\<rparr>"

definition overflow_box :: "unit row" where
  "overflow_box =
     \<lparr>COUNTY_NAME = None, y_min = Some (Fin (2 ^ 1023)), y_max = Some (Fin (3 * 2 ^ 1022)),
      x_min = Some (Fin 0), x_max = Some (Fin 1)\<rparr>"

text \<open>
  Three stores for the examples: one that never finds a row, one whose first query
  rejects, whose second finds nothing and whose third finds the box of California, and
  one whose every query reports a database error.
\<close>

definition empty_store :: "unit store" where
  "empty_store n q = Inr \<lparr>data = Some [], error = None\<rparr>"

definition flaky_store :: "unit store" where
  "flaky_store n q =
     (if n = 1 then Inl (Error ''fetch failed'')
      else if n = 2 then Inr \<lparr>data = Some [], error = None\<rparr>
      else Inr \<lparr>data = Some [california], error = None\<rparr>)"

definition broken_store :: "unit store" where
  "broken_store n q = Inr \<lparr>data = None, error = Some (Error ''connection refused'')\<rparr>"

subsection \<open>The places service\<close>

text \<open>
  The request of \<open>nearbySearch\<close> and what its callback receives. The service is outside
  the program: it is a parameter that gives, for the \<open>i\<close>-th request of an invocation
  (counted from \<open>0\<close> in the order of \<open>map\<close>), the \<open>results\<close> and the \<open>status\<close> passed
  to the callback. The service is taken to call the callback once per request and not
  to throw. The statuses are those of \<open>google.maps.places.PlacesServiceStatus\<close>; the
  code names \<open>OK\<close> only.
\<close>

datatype PlacesServiceStatus =
  OK | INVALID_REQUEST | NOT_FOUND | OVER_QUERY_LIMIT | REQUEST_DENIED | UNKNOWN_ERROR
  | ZERO_RESULTS

record LatLng =
  lat :: number
  lng :: number

record LatLngBounds =
  south_west :: LatLng
  north_east :: LatLng

record request =
  bounds :: LatLngBounds
  place_type :: string

record place =
  place_id :: string

type_synonym places = "nat \<Rightarrow> request \<Rightarrow> place list option \<times> PlacesServiceStatus"

definition searchRequest :: "quadrant \<Rightarrow> request" where
  "searchRequest box =
     \<lparr>bounds = \<lparr>south_west = \<lparr>lat = y_min box, lng = x_min box\<rparr>,
                north_east = \<lparr>lat = y_max box, lng = x_max box\<rparr>\<rparr>,
      place_type = ''restaurant''\<rparr>"

text \<open>
  The callback of \<open>nearbySearch\<close>: the value the promise of one quadrant resolves with.
  The promise is never rejected. The line the callback writes with \<open>console.error\<close> on a
  failed search is left out: the order in which the callbacks run is not fixed by the
  program.
\<close>

definition nearbySearch_callback ::
  "place list option \<Rightarrow> PlacesServiceStatus \<Rightarrow> string list" where
  "nearbySearch_callback results status =
     (if status = OK \<and> results \<noteq> None then map place_id (the results) else [])"

text \<open>
  \<open>Promise.all\<close> over the mapped array: one resolved value per quadrant, in the order of
  the quadrants.
\<close>

fun search_from :: "places \<Rightarrow> nat \<Rightarrow> quadrant list \<Rightarrow> string list list" where
  "search_from places i [] = []"
| "search_from places i (box # boxes) =
     (case places i (searchRequest box) of
        (results, status) \<Rightarrow> nearbySearch_callback results status)
     # search_from places (Suc i) boxes"

definition searchResults :: "places \<Rightarrow> quadrant list \<Rightarrow> string list list" where
  "searchResults places boxes = search_from places 0 boxes"

subsection \<open>The tool\<close>

text \<open>
  The globals the tool reads: \<open>google\<close>, through which the places service is reached,
  and \<open>document\<close>. Neither is declared or imported by the program, so each is bound or
  not by the runtime: \<open>google\<close> is \<open>None\<close> when unbound and the service otherwise.
\<close>

record runtime =
  google :: "places option"
  document :: bool

text \<open>
  The whole callback of the tool: the lookup, the subdivision, the statement
  \<open>new google.maps.Map(document.createElement('div'))\<close>, the searches and the
  flattening. The statement evaluates \<open>google.maps.Map\<close> before its argument and stands
  outside every \<open>try\<close>: an unbound \<open>google\<close>, and then an unbound \<open>document\<close>, throws
  a \<open>ReferenceError\<close> out of the tool.
\<close>

definition boundingBoxesTool :: "'m store \<Rightarrow> runtime \<Rightarrow> string \<Rightarrow> js_error + string list" where
  "boundingBoxesTool store runtime state =
     (case fst (lookup store state) of
        Inl err \<Rightarrow> Inl err
      | Inr boundingBoxes \<Rightarrow>
          let divided = dividedBoundingBoxes boundingBoxes
          in (case google runtime of
                None \<Rightarrow> Inl (Error ''google is not defined'')
              | Some places \<Rightarrow>
                  if \<not> document runtime then Inl (Error ''document is not defined'')
                  else Inr (flat (searchResults places divided))))"

text \<open>
  The specification's wording of what one quadrant contributes: the place ids in the
  order of the service when it reports \<open>OK\<close>, nothing when it reports another status or
  no results.
\<close>

definition contribution :: "place list option \<times> PlacesServiceStatus \<Rightarrow> string list" where
  "contribution r =
     (case r of
        (Some results, OK) \<Rightarrow> map place_id results
      | _ \<Rightarrow> [])"

text \<open>
  The service of the specification's aggregation example: \<open>[a, b]\<close>, a failure, \<open>[c]\<close>
  and a success without results.
\<close>

definition example_places :: places where
  "example_places i r =
     (if i = 0 then (Some [\<lparr>place_id = ''a''\<rparr>, \<lparr>place_id = ''b''\<rparr>], OK)
      else if i = 1 then (None, UNKNOWN_ERROR)
      else if i = 2 then (Some [\<lparr>place_id = ''c''\<rparr>], OK)
      else (Some [], OK))"

text \<open>
  The runtime of a server action (\<open>action.ts\<close> imports the tool under \<open>"use server"\<close>),
  where neither global is bound, and a page on which the Maps library is loaded with a
  given service.
\<close>

definition server_runtime :: runtime where
  "server_runtime = \<lparr>google = None, document = False\<rparr>"

definition page_runtime :: "places \<Rightarrow> runtime" where
  "page_runtime places = \<lparr>google = Some places, document = True\<rparr>"

text \<open>A store that finds the box of California at once.\<close>

definition found_store :: "unit store" where
  "found_store n q = Inr \<lparr>data = Some [california], error = None\<rparr>"

section \<open>Properties of the numbers\<close>

lemmas bit_length_unfold = bit_length.simps

declare bit_length.simps [simp del]

lemma bit_length_bounds:
  "0 < n \<Longrightarrow> 0 < bit_length n \<and> 2 ^ nat (bit_length n - 1) \<le> n \<and> n < 2 ^ nat (bit_length n)"
proof (induction n rule: bit_length.induct)
  case (1 n)
  show ?case
  proof (cases "n div 2 \<le> 0")
    case True
    with "1.prems" have n: "n = 1" by linarith
    have "bit_length 1 = 1"
      by (simp add: bit_length_unfold [of 1] bit_length_unfold [of 0])
    with n show ?thesis by simp
  next
    case False
    then have pos: "0 < n div 2" by simp
    from "1.IH" [OF _ pos] "1.prems"
    have ih: "0 < bit_length (n div 2)" "2 ^ nat (bit_length (n div 2) - 1) \<le> n div 2"
      "n div 2 < 2 ^ nat (bit_length (n div 2))"
      by simp_all
    have bl: "bit_length n = 1 + bit_length (n div 2)"
      using "1.prems" by (simp add: bit_length_unfold [of n])
    from ih(1) have e: "(2::int) ^ nat (bit_length (n div 2)) =
        2 * 2 ^ nat (bit_length (n div 2) - 1)"
      by (cases "nat (bit_length (n div 2))") (simp_all add: nat_diff_distrib)
    from ih(2) have "2 * 2 ^ nat (bit_length (n div 2) - 1) \<le> n" by linarith
    moreover from ih(3) have "n < 2 * 2 ^ nat (bit_length (n div 2))" by linarith
    moreover have "nat (1 + bit_length (n div 2)) = Suc (nat (bit_length (n div 2)))"
      using ih(1) by simp
    ultimately show ?thesis using ih(1) by (simp add: bl e)
  qed
qed

lemma powi_mono2: "a \<le> b \<Longrightarrow> (2::rat) powi a \<le> 2 powi b"
  by (rule power_int_increasing) simp_all

lemma powi_less_imp: "(2::rat) powi a < 2 powi b \<Longrightarrow> a < b"
  using powi_mono2 [of b a] by (cases "a < b") auto

text \<open>The exponent function is right: it brackets every positive rational.\<close>

lemma ilog2_bounds:
  assumes "0 < x"
  shows "2 powi ilog2 x \<le> x \<and> x < 2 powi (ilog2 x + 1)"
proof -
  obtain a b where q: "quotient_of x = (a, b)" by (cases "quotient_of x")
  then have b: "0 < b" and x: "x = of_int a / of_int b"
    using quotient_of_denom_pos [of x a b] quotient_of_div [of x a b] by simp_all
  with assms have a: "0 < a"
    by (simp add: zero_less_divide_iff)
  define la lb where "la = bit_length a" and "lb = bit_length b"
  from bit_length_bounds [OF a]
  have la: "0 < la" and A: "2 ^ nat (la - 1) \<le> a" "a < 2 ^ nat la"
    by (simp_all add: la_def)
  from bit_length_bounds [OF b]
  have lb: "0 < lb" and B: "2 ^ nat (lb - 1) \<le> b" "b < 2 ^ nat lb"
    by (simp_all add: lb_def)
  have ra: "2 powi (la - 1) \<le> (of_int a :: rat)" "(of_int a :: rat) < 2 powi la"
  proof -
    from A(1) have "(of_int (2 ^ nat (la - 1)) :: rat) \<le> of_int a" by (simp only: of_int_le_iff)
    then show "2 powi (la - 1) \<le> (of_int a :: rat)" using la by (simp add: power_int_def)
    from A(2) have "(of_int a :: rat) < of_int (2 ^ nat la)" by (simp only: of_int_less_iff)
    then show "(of_int a :: rat) < 2 powi la" using la by (simp add: power_int_def)
  qed
  have rb: "2 powi (lb - 1) \<le> (of_int b :: rat)" "(of_int b :: rat) < 2 powi lb"
  proof -
    from B(1) have "(of_int (2 ^ nat (lb - 1)) :: rat) \<le> of_int b" by (simp only: of_int_le_iff)
    then show "2 powi (lb - 1) \<le> (of_int b :: rat)" using lb by (simp add: power_int_def)
    from B(2) have "(of_int b :: rat) < of_int (2 ^ nat lb)" by (simp only: of_int_less_iff)
    then show "(of_int b :: rat) < 2 powi lb" using lb by (simp add: power_int_def)
  qed
  define d where "d = la - lb"
  have bpos: "(0::rat) < of_int b" using b by simp
  have upper: "x < 2 powi (d + 1)"
  proof -
    have "x * of_int b = of_int a" using x bpos by simp
    also have "\<dots> < 2 powi la" by (rule ra(2))
    also have "\<dots> = 2 powi (d + 1) * 2 powi (lb - 1)"
      by (simp add: d_def power_int_add [symmetric])
    also have "\<dots> \<le> 2 powi (d + 1) * of_int b"
      using rb(1) by (intro mult_left_mono) simp_all
    finally show ?thesis using bpos by simp
  qed
  have lower: "2 powi (d - 1) \<le> x"
  proof -
    have "2 powi (d - 1) * of_int b \<le> 2 powi (d - 1) * (2::rat) powi lb"
      using rb(2) by (intro mult_left_mono) simp_all
    also have "\<dots> = 2 powi (la - 1)"
      by (simp add: d_def power_int_add [symmetric])
    also have "\<dots> \<le> of_int a" by (rule ra(1))
    also have "\<dots> = x * of_int b" using x bpos by simp
    finally show ?thesis using bpos by simp
  qed
  have il: "ilog2 x = (if 2 powi d \<le> x then d else d - 1)"
    by (simp add: ilog2_def q d_def la_def lb_def Let_def)
  show ?thesis
  proof (cases "2 powi d \<le> x")
    case True
    with il upper show ?thesis by simp
  next
    case False
    with il lower show ?thesis by simp
  qed
qed

lemma ilog2_unique:
  assumes "2 powi e \<le> x" "x < 2 powi (e + 1)"
  shows "ilog2 x = e"
proof -
  have "(0::rat) < 2 powi e" by simp
  with assms(1) have pos: "0 < x" by linarith
  from ilog2_bounds [OF pos] assms
  have "(2::rat) powi ilog2 x < 2 powi (e + 1)" "(2::rat) powi e < 2 powi (ilog2 x + 1)"
    by linarith+
  then have "ilog2 x < e + 1" "e < ilog2 x + 1"
    by (auto dest: powi_less_imp)
  then show ?thesis by simp
qed

text \<open>Rounding of a fraction of integers, and of a rational whose exponent is known.\<close>

lemma round_half_even_fraction:
  assumes "0 < d"
  shows "round_half_even (of_int n / of_int d) =
     (if 2 * (n mod d) < d then n div d
      else if d < 2 * (n mod d) then n div d + 1
      else if even (n div d) then n div d else n div d + 1)"
proof -
  have f: "\<lfloor>(of_int n :: rat) / of_int d\<rfloor> = n div d"
    by (rule floor_divide_of_int_eq)
  have "(of_int n :: rat) = of_int (n div d) * of_int d + of_int (n mod d)"
    by (simp flip: of_int_mult of_int_add)
  then have r: "(of_int n :: rat) / of_int d - of_int (n div d) = of_int (n mod d) / of_int d"
    using assms by (simp add: field_simps)
  have less: "(of_int (n mod d) :: rat) / of_int d < 1 / 2 \<longleftrightarrow> 2 * (n mod d) < d"
  proof -
    have "(of_int (n mod d) :: rat) / of_int d < 1 / 2 \<longleftrightarrow>
          (of_int (2 * (n mod d)) :: rat) < of_int d"
      using assms by (simp add: field_simps)
    then show ?thesis by (simp only: of_int_less_iff)
  qed
  have greater: "1 / 2 < (of_int (n mod d) :: rat) / of_int d \<longleftrightarrow> d < 2 * (n mod d)"
  proof -
    have "1 / 2 < (of_int (n mod d) :: rat) / of_int d \<longleftrightarrow>
          (of_int d :: rat) < of_int (2 * (n mod d))"
      using assms by (simp add: field_simps)
    then show ?thesis by (simp only: of_int_less_iff)
  qed
  show ?thesis
    unfolding round_half_even_def Let_def f r less greater by (rule refl)
qed

lemma round_binary64_eval:
  assumes "2 powi e \<le> \<bar>x\<bar>" "\<bar>x\<bar> < 2 powi (e + 1)"
    and "ulp = 2 powi (max e (- 1022) - 52)"
    and "\<bar>x\<bar> / ulp = of_int n / of_int d" "0 < d"
    and "m = (if 2 * (n mod d) < d then n div d
              else if d < 2 * (n mod d) then n div d + 1
              else if even (n div d) then n div d else n div d + 1)"
  shows "round_binary64 x =
     (if 2 powi 1024 \<le> of_int m * ulp then (if 0 < x then PInf else NInf)
      else Fin (if 0 < x then of_int m * ulp else - (of_int m * ulp)))"
proof -
  have "(0::rat) < 2 powi e" by simp
  with assms(1) have "0 < \<bar>x\<bar>" by linarith
  then have nz: "x \<noteq> 0" by simp
  have il: "ilog2 \<bar>x\<bar> = e"
    by (rule ilog2_unique [OF assms(1,2)])
  have rh: "round_half_even (\<bar>x\<bar> / ulp) = m"
    unfolding assms(4) assms(6) by (rule round_half_even_fraction [OF assms(5)])
  have "round_binary64 x =
     (let e = max (ilog2 \<bar>x\<bar>) (- 1022);
          ulp = 2 powi (e - 52);
          y = of_int (round_half_even (\<bar>x\<bar> / ulp)) * ulp
      in if 2 powi 1024 \<le> y then (if 0 < x then PInf else NInf)
         else Fin (if 0 < x then y else - y))"
    unfolding round_binary64_def using nz by (simp only: if_False)
  then show ?thesis
    unfolding Let_def il assms(3) [symmetric] rh .
qed

lemma powi_numeral_neg: "(2::rat) powi (- numeral k) = 1 / 2 ^ numeral k"
  by (simp add: power_int_def power_divide inverse_eq_divide)

lemma powi_numeral_pos: "(2::rat) powi (numeral k) = 2 ^ numeral k"
  by (simp add: power_int_def)

lemmas powi_numeral = powi_numeral_neg powi_numeral_pos

text \<open>
  The roundings the examples need. The decimals \<open>-124.4\<close> and \<open>-114.1\<close> are not doubles;
  the sum of their doubles is \<open>-238.5\<close> exactly. The sum of the doubles of \<open>0.1\<close> and
  \<open>0.2\<close> is rounded up at a tie, so that the midpoint of \<open>0.1\<close> and \<open>0.2\<close> is the double
  \<open>0.15000000000000002\<close>.
\<close>

lemma round_124_4: "round_binary64 (-124.4) = Fin (- (4376935887850701 / 2 ^ 45))"
  by (subst round_binary64_eval [where e = 6 and ulp = "1 / 2 ^ 46" and n = "1244 * 2 ^ 46"
        and d = 10 and m = 8753871775701402])
     (simp_all add: powi_numeral)

lemma round_114_1: "round_binary64 (-114.1) = Fin (- (4014536855335731 / 2 ^ 45))"
  by (subst round_binary64_eval [where e = 6 and ulp = "1 / 2 ^ 46" and n = "1141 * 2 ^ 46"
        and d = 10 and m = 8029073710671462])
     (simp_all add: powi_numeral)

lemma round_238_5: "round_binary64 (- 238.5) = Fin (- 238.5)"
  by (subst round_binary64_eval [where e = 7 and ulp = "1 / 2 ^ 45" and n = "2385 * 2 ^ 45"
        and d = 10 and m = "477 * 2 ^ 44"])
     (simp_all add: powi_numeral)

lemma round_119_25: "round_binary64 (- 119.25) = Fin (- 119.25)"
  by (subst round_binary64_eval [where e = 6 and ulp = "1 / 2 ^ 46" and n = "11925 * 2 ^ 46"
        and d = 100 and m = "477 * 2 ^ 44"])
     (simp_all add: powi_numeral)

lemma round_74_5: "round_binary64 74.5 = Fin 74.5"
  by (subst round_binary64_eval [where e = 6 and ulp = "1 / 2 ^ 46" and n = "745 * 2 ^ 46"
        and d = 10 and m = "149 * 2 ^ 45"])
     (simp_all add: powi_numeral)

lemma round_37_25: "round_binary64 37.25 = Fin 37.25"
  by (subst round_binary64_eval [where e = 5 and ulp = "1 / 2 ^ 47" and n = "3725 * 2 ^ 47"
        and d = 100 and m = "149 * 2 ^ 45"])
     (simp_all add: powi_numeral)

lemma round_1: "round_binary64 1 = Fin 1"
  by (subst round_binary64_eval [where e = 0 and ulp = "1 / 2 ^ 52" and n = "2 ^ 52"
        and d = 1 and m = "2 ^ 52"])
     (simp_all add: powi_numeral)

lemma round_half: "round_binary64 (1 / 2) = Fin (1 / 2)"
  by (subst round_binary64_eval [where e = "- 1" and ulp = "1 / 2 ^ 53" and n = "2 ^ 52"
        and d = 1 and m = "2 ^ 52"])
     (simp_all add: powi_numeral)

lemma round_overflow: "round_binary64 (5 * 2 ^ 1022) = PInf"
  by (subst round_binary64_eval [where e = 1024 and ulp = "2 ^ 972" and n = "5 * 2 ^ 50"
        and d = 1 and m = "5 * 2 ^ 50"])
     (simp_all add: powi_numeral)

lemma round_0_1: "round_binary64 (1 / 10) = Fin (3602879701896397 / 2 ^ 55)"
  by (subst round_binary64_eval [where e = "- 4" and ulp = "1 / 2 ^ 56" and n = "2 ^ 56"
        and d = 10 and m = 7205759403792794])
     (simp_all add: powi_numeral)

lemma round_0_2: "round_binary64 (2 / 10) = Fin (3602879701896397 / 2 ^ 54)"
  by (subst round_binary64_eval [where e = "- 3" and ulp = "1 / 2 ^ 55" and n = "2 ^ 56"
        and d = 10 and m = 7205759403792794])
     (simp_all add: powi_numeral)

lemma round_0_3: "round_binary64 (3 * 3602879701896397 / 2 ^ 55) = Fin (5404319552844596 / 2 ^ 54)"
  by (subst round_binary64_eval [where e = "- 2" and ulp = "1 / 2 ^ 54"
        and n = "3 * 3602879701896397" and d = 2 and m = 5404319552844596])
     (simp_all add: powi_numeral)

lemma round_0_15: "round_binary64 (5404319552844596 / 2 ^ 55) = Fin (5404319552844596 / 2 ^ 55)"
  by (subst round_binary64_eval [where e = "- 3" and ulp = "1 / 2 ^ 55"
        and n = 5404319552844596 and d = 1 and m = 5404319552844596])
     (simp_all add: powi_numeral)

lemma midpoint_0_1_0_2:
  "halve (add (round_binary64 (1 / 10)) (round_binary64 (2 / 10))) =
     Fin (5404319552844596 / 2 ^ 55)
   \<and> Fin (5404319552844596 / 2 ^ 55) \<noteq> Fin (15 / 100)"
proof -
  have "(3602879701896397 / 2 ^ 55 + 3602879701896397 / 2 ^ 54 :: rat) =
        3 * 3602879701896397 / 2 ^ 55"
    by simp
  then have "add (round_binary64 (1 / 10)) (round_binary64 (2 / 10)) =
             Fin (5404319552844596 / 2 ^ 54)"
    by (simp only: round_0_1 round_0_2 add.simps round_0_3)
  moreover have "(5404319552844596 / 2 ^ 54 / 2 :: rat) = 5404319552844596 / 2 ^ 55"
    by simp
  ultimately have "halve (add (round_binary64 (1 / 10)) (round_binary64 (2 / 10))) =
             Fin (5404319552844596 / 2 ^ 55)"
    by (simp only: halve.simps round_0_15)
  then show ?thesis by simp
qed

text \<open>
  The ends of the range: the largest double is kept, the rational halfway between it and
  \<open>2 ^ 1024\<close> overflows, the smallest positive double is kept and half of it rounds to
  zero.
\<close>

lemma round_largest: "round_binary64 ((2 ^ 53 - 1) * 2 ^ 971) = Fin ((2 ^ 53 - 1) * 2 ^ 971)"
  by (subst round_binary64_eval [where e = 1023 and ulp = "2 ^ 971" and n = "2 ^ 53 - 1"
        and d = 1 and m = "2 ^ 53 - 1"])
     (simp_all add: powi_numeral)

lemma round_overflow_tie: "round_binary64 (2 ^ 1024 - 2 ^ 970) = PInf"
  by (subst round_binary64_eval [where e = 1023 and ulp = "2 ^ 971" and n = "2 ^ 54 - 1"
        and d = 2 and m = "2 ^ 53"])
     (simp_all add: powi_numeral)

lemma round_smallest: "round_binary64 (1 / 2 ^ 1074) = Fin (1 / 2 ^ 1074)"
  by (subst round_binary64_eval [where e = "- 1074" and ulp = "1 / 2 ^ 1074" and n = 1
        and d = 1 and m = 1])
     (simp_all add: powi_numeral)

lemma round_underflow_tie: "round_binary64 (1 / 2 ^ 1075) = Fin 0"
  by (subst round_binary64_eval [where e = "- 1075" and ulp = "1 / 2 ^ 1074" and n = 1
        and d = 2 and m = 0])
     (simp_all add: powi_numeral)

text \<open>
  Rounding is monotone, twice a double below \<open>2 ^ 1023\<close> is a double, and so the
  computed midpoint of two ordinary bounds lies between them.
\<close>

lemma round_binary64_magnitude:
  "round_binary64 x =
     (if x = 0 then Fin 0
      else if 2 powi 1024 \<le> magnitude \<bar>x\<bar> then (if 0 < x then PInf else NInf)
      else Fin (if 0 < x then magnitude \<bar>x\<bar> else - magnitude \<bar>x\<bar>))"
  by (simp add: round_binary64_def magnitude_def ulp_of_def Let_def)

lemma round_half_even_cases:
  "round_half_even q = \<lfloor>q\<rfloor> \<or> round_half_even q = \<lfloor>q\<rfloor> + 1"
  by (simp add: round_half_even_def Let_def)

lemma round_half_even_of_int: "round_half_even (of_int k) = k"
  by (simp add: round_half_even_def Let_def)

lemma round_half_even_mono:
  assumes "q \<le> q'"
  shows "round_half_even q \<le> round_half_even q'"
proof (cases "\<lfloor>q\<rfloor> = \<lfloor>q'\<rfloor>")
  case True
  with assms have "q - of_int \<lfloor>q\<rfloor> \<le> q' - of_int \<lfloor>q'\<rfloor>" by simp
  with True show ?thesis
    by (auto simp: round_half_even_def Let_def)
next
  case False
  with assms have "\<lfloor>q\<rfloor> < \<lfloor>q'\<rfloor>"
    using floor_mono [OF assms] by linarith
  moreover have "round_half_even q \<le> \<lfloor>q\<rfloor> + 1" "\<lfloor>q'\<rfloor> \<le> round_half_even q'"
    using round_half_even_cases [of q] round_half_even_cases [of q'] by auto
  ultimately show ?thesis by linarith
qed

lemma ilog2_mono:
  assumes "0 < x" "x \<le> y"
  shows "ilog2 x \<le> ilog2 y"
proof -
  from assms have "0 < y" by simp
  from ilog2_bounds [OF assms(1)] ilog2_bounds [OF this] assms(2)
  have "(2::rat) powi ilog2 x < 2 powi (ilog2 y + 1)" by linarith
  then have "ilog2 x < ilog2 y + 1" by (rule powi_less_imp)
  then show ?thesis by simp
qed

lemma ulp_of_pos: "0 < ulp_of x"
  by (simp add: ulp_of_def)

lemma magnitude_upper:
  assumes "0 < x"
  shows "magnitude x \<le> 2 powi (max (ilog2 x) (- 1022) + 1)"
proof -
  define E where "E = max (ilog2 x) (- 1022)"
  have u: "ulp_of x = 2 powi (E - 52)" by (simp add: ulp_of_def E_def)
  from ilog2_bounds [OF assms] have "x < 2 powi (ilog2 x + 1)" by simp
  also have "\<dots> \<le> 2 powi (E + 1)" by (rule powi_mono2) (simp add: E_def)
  finally have "x / ulp_of x \<le> 2 powi (E + 1) / ulp_of x"
    using ulp_of_pos [of x] by (simp add: divide_right_mono)
  also have "2 powi (E + 1) / ulp_of x = (2::rat) powi 53"
    unfolding u by (simp add: power_int_diff [symmetric])
  also have "(2::rat) powi 53 = of_int (2 ^ 53)" by (simp add: power_int_def)
  finally have "round_half_even (x / ulp_of x) \<le> 2 ^ 53"
    using round_half_even_mono [of "x / ulp_of x" "of_int (2 ^ 53)"]
    by (simp only: round_half_even_of_int)
  then have "(of_int (round_half_even (x / ulp_of x)) :: rat) \<le> of_int (2 ^ 53)"
    by (simp only: of_int_le_iff)
  then have "magnitude x \<le> of_int (2 ^ 53) * ulp_of x"
    unfolding magnitude_def using ulp_of_pos [of x] by (simp add: mult_right_mono)
  also have "of_int (2 ^ 53) * ulp_of x = 2 powi 53 * 2 powi (E - 52)"
    unfolding u by (simp add: power_int_def)
  also have "\<dots> = 2 powi (53 + (E - 52))"
    by (rule power_int_add [symmetric]) simp
  also have "53 + (E - 52) = E + 1" by simp
  finally show ?thesis by (simp add: E_def)
qed

lemma magnitude_lower:
  assumes "0 < x" "- 1022 \<le> ilog2 x"
  shows "2 powi ilog2 x \<le> magnitude x"
proof -
  define E where "E = ilog2 x"
  have u: "ulp_of x = 2 powi (E - 52)" using assms(2) by (simp add: ulp_of_def E_def)
  from ilog2_bounds [OF assms(1)] have "2 powi E \<le> x" by (simp add: E_def)
  then have "2 powi E / ulp_of x \<le> x / ulp_of x"
    using ulp_of_pos [of x] by (simp add: divide_right_mono)
  moreover have "2 powi E / ulp_of x = (2::rat) powi 52"
    unfolding u by (simp add: power_int_diff [symmetric])
  moreover have "(2::rat) powi 52 = of_int (2 ^ 52)" by (simp add: power_int_def)
  ultimately have "2 ^ 52 \<le> round_half_even (x / ulp_of x)"
    using round_half_even_mono [of "of_int (2 ^ 52)" "x / ulp_of x"]
    by (simp only: round_half_even_of_int)
  then have "(of_int (2 ^ 52) :: rat) \<le> of_int (round_half_even (x / ulp_of x))"
    by (simp only: of_int_le_iff)
  then have "of_int (2 ^ 52) * ulp_of x \<le> magnitude x"
    unfolding magnitude_def using ulp_of_pos [of x] by (simp add: mult_right_mono)
  moreover have "of_int (2 ^ 52) * ulp_of x = 2 powi 52 * 2 powi (E - 52)"
    unfolding u by (simp add: power_int_def)
  moreover have "2 powi 52 * 2 powi (E - 52) = (2::rat) powi E"
  proof -
    have "(2::rat) powi 52 * 2 powi (E - 52) = 2 powi (52 + (E - 52))"
      by (rule power_int_add [symmetric]) simp
    then show ?thesis by simp
  qed
  ultimately show ?thesis by (simp add: E_def)
qed

lemma magnitude_nonneg: "0 < x \<Longrightarrow> 0 \<le> magnitude x"
proof -
  assume "0 < x"
  then have "0 \<le> x / ulp_of x" using ulp_of_pos [of x] by simp
  then have "round_half_even (of_int 0) \<le> round_half_even (x / ulp_of x)"
    by (intro round_half_even_mono) simp
  then have "0 \<le> round_half_even (x / ulp_of x)"
    by (simp only: round_half_even_of_int)
  then show ?thesis
    unfolding magnitude_def using ulp_of_pos [of x] by simp
qed

lemma magnitude_mono:
  assumes "0 < x" "x \<le> y"
  shows "magnitude x \<le> magnitude y"
proof -
  from assms have y: "0 < y" by simp
  define Ex Ey where "Ex = max (ilog2 x) (- 1022)" and "Ey = max (ilog2 y) (- 1022)"
  from ilog2_mono [OF assms] have le: "Ex \<le> Ey" by (simp add: Ex_def Ey_def)
  show ?thesis
  proof (cases "Ex = Ey")
    case True
    then have u: "ulp_of x = ulp_of y" by (simp add: ulp_of_def Ex_def Ey_def)
    from assms(2) have "x / ulp_of y \<le> y / ulp_of y"
      using ulp_of_pos [of y] by (simp add: divide_right_mono)
    then have "round_half_even (x / ulp_of y) \<le> round_half_even (y / ulp_of y)"
      by (rule round_half_even_mono)
    then have "(of_int (round_half_even (x / ulp_of y)) :: rat) \<le>
               of_int (round_half_even (y / ulp_of y))"
      by (simp only: of_int_le_iff)
    then show ?thesis
      unfolding magnitude_def u using ulp_of_pos [of y] by (simp add: mult_right_mono)
  next
    case False
    with le have lt: "Ex < Ey" by simp
    then have ey: "Ey = ilog2 y" "- 1022 \<le> ilog2 y"
      by (auto simp: Ex_def Ey_def)
    from magnitude_upper [OF assms(1)] have "magnitude x \<le> 2 powi (Ex + 1)"
      by (simp add: Ex_def)
    also have "\<dots> \<le> 2 powi Ey" using lt by (intro powi_mono2) simp
    also have "\<dots> \<le> magnitude y"
      using magnitude_lower [OF y ey(2)] by (simp add: ey(1))
    finally show ?thesis .
  qed
qed

lemma round_binary64_mono:
  assumes "x \<le> y"
  shows "le (round_binary64 x) (round_binary64 y)"
proof -
  consider "x = 0" | "0 < x" | "x < 0" by linarith
  then show ?thesis
  proof cases
    case 1
    with assms consider "y = 0" | "0 < y" by linarith
    then show ?thesis
      using 1 magnitude_nonneg [of "\<bar>y\<bar>"]
      by cases (auto simp: round_binary64_magnitude)
  next
    case 2
    with assms have y: "0 < y" by simp
    from magnitude_mono [OF 2 assms] 2 y show ?thesis
      by (auto simp: round_binary64_magnitude)
  next
    case 3
    consider "y = 0" | "0 < y" | "y < 0" by linarith
    then show ?thesis
    proof cases
      case 1
      with 3 magnitude_nonneg [of "\<bar>x\<bar>"] show ?thesis
        by (auto simp: round_binary64_magnitude)
    next
      case 2
      with 3 magnitude_nonneg [of "\<bar>x\<bar>"] magnitude_nonneg [of "\<bar>y\<bar>"] show ?thesis
        by (auto simp: round_binary64_magnitude)
    next
      case y: 3
      with assms 3 have "0 < \<bar>y\<bar>" "\<bar>y\<bar> \<le> \<bar>x\<bar>" by simp_all
      from magnitude_mono [OF this] 3 y show ?thesis
        by (auto simp: round_binary64_magnitude)
    qed
  qed
qed


lemma round_half_even_int_quotient:
  "x / u = of_int k \<Longrightarrow> round_half_even (x / u) = k"
  by (simp only: round_half_even_of_int)

lemma double_positive:
  assumes "is_double a" "0 < a"
  shows "magnitude a = a \<and> a < 2 powi 1024"
  using assms
  by (simp add: is_double_def round_binary64_magnitude split: if_splits)

lemma twice_double_positive:
  assumes "is_double a" "0 < a" "a < 2 powi 1023"
  shows "is_double (2 * a)"
proof -
  from double_positive [OF assms(1,2)] have m: "magnitude a = a" by simp
  define u k where "u = ulp_of a" and "k = round_half_even (a / ulp_of a)"
  have upos: "0 < u" by (simp add: u_def ulp_of_pos)
  from m have ak: "a = of_int k * u" by (simp add: magnitude_def u_def k_def)
  define e where "e = ilog2 a"
  from ilog2_bounds [OF assms(2)] have b: "2 powi e \<le> a" "a < 2 powi (e + 1)"
    by (simp_all add: e_def)
  have "2 powi (e + 1) \<le> 2 * a"
  proof -
    have "(2::rat) powi (e + 1) = 2 powi e * 2" by (simp add: power_int_add)
    with b(1) show ?thesis by simp
  qed
  moreover have "2 * a < 2 powi (e + 1 + 1)"
  proof -
    have "(2::rat) powi (e + 1 + 1) = 2 powi (e + 1) * 2" by (simp add: power_int_add)
    with b(2) show ?thesis by simp
  qed
  ultimately have e2: "ilog2 (2 * a) = e + 1" by (rule ilog2_unique)
  have u: "u = 2 powi (max e (- 1022) - 52)" by (simp add: u_def ulp_of_def e_def)
  have u2: "ulp_of (2 * a) = 2 powi (max (e + 1) (- 1022) - 52)"
    by (simp add: ulp_of_def e2)
  have "\<exists>j. 2 * a / ulp_of (2 * a) = of_int j"
  proof (cases "e + 1 \<le> - 1022")
    case True
    then have "ulp_of (2 * a) = u" by (simp add: u u2)
    then have "2 * a / ulp_of (2 * a) = of_int (2 * k)"
      using upos by (simp add: ak)
    then show ?thesis by blast
  next
    case False
    then have "max (e + 1) (- 1022) - 52 = (max e (- 1022) - 52) + 1" by simp
    then have "ulp_of (2 * a) = 2 powi ((max e (- 1022) - 52) + 1)"
      unfolding u2 by (rule arg_cong)
    also have "\<dots> = 2 powi (max e (- 1022) - 52) * 2 powi 1"
      by (rule power_int_add) simp
    finally have "ulp_of (2 * a) = u * 2"
      by (simp add: u)
    then have "2 * a / ulp_of (2 * a) = of_int k"
      using upos by (simp add: ak)
    then show ?thesis by blast
  qed
  then obtain j where j: "2 * a / ulp_of (2 * a) = of_int j" by blast
  then have "round_half_even (2 * a / ulp_of (2 * a)) = j"
    by (rule round_half_even_int_quotient)
  then have "magnitude (2 * a) = of_int j * ulp_of (2 * a)"
    by (simp add: magnitude_def)
  also have "\<dots> = 2 * a"
    using j ulp_of_pos [of "2 * a"] by (simp add: field_simps)
  finally have m2: "magnitude (2 * a) = 2 * a" .
  have "2 * a < 2 powi 1024"
  proof -
    have "(2::rat) powi 1024 = 2 powi 1023 * 2" by (simp add: power_int_def)
    with assms(3) show ?thesis by simp
  qed
  with m2 assms(2) show ?thesis
    by (simp add: is_double_def round_binary64_magnitude)
qed

lemma round_binary64_neg: "round_binary64 (- x) =
  (case round_binary64 x of Fin y \<Rightarrow> Fin (- y) | PInf \<Rightarrow> NInf | NInf \<Rightarrow> PInf | NaN \<Rightarrow> NaN)"
  by (auto simp: round_binary64_magnitude)

lemma is_double_neg: "is_double (- a) \<longleftrightarrow> is_double a"
  by (auto simp: is_double_def round_binary64_neg split: number.splits)

lemma twice_double:
  assumes "is_double a" "\<bar>a\<bar> < 2 powi 1023"
  shows "is_double (2 * a)"
proof -
  consider "a = 0" | "0 < a" | "a < 0" by linarith
  then show ?thesis
  proof cases
    case 1
    then show ?thesis by (simp add: is_double_def round_binary64_def)
  next
    case 2
    with assms show ?thesis by (simp add: twice_double_positive)
  next
    case 3
    with assms have "is_double (- a)" "0 < - a" "- a < 2 powi 1023"
      by (simp_all add: is_double_neg)
    then have "is_double (2 * (- a))" by (rule twice_double_positive)
    then have "is_double (- (2 * a))" by simp
    then show ?thesis by (simp only: is_double_neg)
  qed
qed

lemma le_Fin_between:
  assumes "le (Fin a) n" "le n (Fin b)"
  obtains m where "n = Fin m" "a \<le> m" "m \<le> b"
  using assms by (cases n) auto

lemma midpoint_between:
  assumes "is_double a" "is_double b" "a \<le> b" "\<bar>a\<bar> < 2 powi 1023" "\<bar>b\<bar> < 2 powi 1023"
  shows "le (Fin a) (halve (add (Fin a) (Fin b))) \<and> le (halve (add (Fin a) (Fin b))) (Fin b)"
proof -
  from twice_double [OF assms(1,4)] twice_double [OF assms(2,5)]
  have d: "round_binary64 (2 * a) = Fin (2 * a)" "round_binary64 (2 * b) = Fin (2 * b)"
    by (simp_all add: is_double_def)
  from assms(3) have "2 * a \<le> a + b" "a + b \<le> 2 * b" by simp_all
  from round_binary64_mono [OF this(1)] round_binary64_mono [OF this(2)]
  have "le (Fin (2 * a)) (round_binary64 (a + b))" "le (round_binary64 (a + b)) (Fin (2 * b))"
    by (simp_all only: d)
  then obtain s where s: "round_binary64 (a + b) = Fin s" "2 * a \<le> s" "s \<le> 2 * b"
    by (rule le_Fin_between)
  then have "a \<le> s / 2" "s / 2 \<le> b" by simp_all
  from round_binary64_mono [OF this(1)] round_binary64_mono [OF this(2)] assms(1,2)
  have "le (Fin a) (round_binary64 (s / 2))" "le (round_binary64 (s / 2)) (Fin b)"
    by (simp_all add: is_double_def)
  with s(1) show ?thesis by simp
qed

lemma ordinary_midpoint:
  assumes "ordinary a" "ordinary b" "le a b"
  shows "le a (halve (add a b)) \<and> le (halve (add a b)) b"
proof -
  from assms(1,2) obtain x y where xy: "a = Fin x" "b = Fin y"
    by (cases a; cases b) simp_all
  with assms have "is_double x" "is_double y" "x \<le> y" "\<bar>x\<bar> < 2 powi 1023" "\<bar>y\<bar> < 2 powi 1023"
    by simp_all
  then show ?thesis
    unfolding xy by (rule midpoint_between)
qed

lemma california_ordinary:
  "ordinary (Fin 32.5)" "ordinary (Fin 42)"
  "ordinary (round_binary64 (-124.4))" "ordinary (round_binary64 (-114.1))"
proof -
  have "round_binary64 32.5 = Fin 32.5"
    by (subst round_binary64_eval [where e = 5 and ulp = "1 / 2 ^ 47" and n = "325 * 2 ^ 47"
          and d = 10 and m = "65 * 2 ^ 46"])
       (simp_all add: powi_numeral)
  then show "ordinary (Fin 32.5)"
    by (simp add: is_double_def powi_numeral)
  have "round_binary64 42 = Fin 42"
    by (subst round_binary64_eval [where e = 5 and ulp = "1 / 2 ^ 47" and n = "42 * 2 ^ 47"
          and d = 1 and m = "42 * 2 ^ 47"])
       (simp_all add: powi_numeral)
  then show "ordinary (Fin 42)"
    by (simp add: is_double_def powi_numeral)
  have "round_binary64 (- (4376935887850701 / 2 ^ 45)) = Fin (- (4376935887850701 / 2 ^ 45))"
    by (subst round_binary64_eval [where e = 6 and ulp = "1 / 2 ^ 46"
          and n = 8753871775701402 and d = 1 and m = 8753871775701402])
       (simp_all add: powi_numeral)
  then show "ordinary (round_binary64 (-124.4))"
    unfolding round_124_4 by (simp add: is_double_def powi_numeral)
  have "round_binary64 (- (4014536855335731 / 2 ^ 45)) = Fin (- (4014536855335731 / 2 ^ 45))"
    by (subst round_binary64_eval [where e = 6 and ulp = "1 / 2 ^ 46"
          and n = 8029073710671462 and d = 1 and m = 8029073710671462])
       (simp_all add: powi_numeral)
  then show "ordinary (round_binary64 (-114.1))"
    unfolding round_114_1 by (simp add: is_double_def powi_numeral)
qed

section \<open>Properties of the subdivision\<close>

lemma dividedBoundingBoxes_Nil: "dividedBoundingBoxes [] = []"
  by (simp add: dividedBoundingBoxes_def flatMap_def flat_def)

lemma dividedBoundingBoxes_Cons:
  "dividedBoundingBoxes (b # bs) = divideBox b @ dividedBoundingBoxes bs"
  by (simp add: dividedBoundingBoxes_def flatMap_def flat_def)

lemma dividedBoundingBoxes_append:
  "dividedBoundingBoxes (as @ bs) = dividedBoundingBoxes as @ dividedBoundingBoxes bs"
  by (simp add: dividedBoundingBoxes_def flatMap_def flat_def)

lemma dividedBoundingBoxes_single: "dividedBoundingBoxes [b] = divideBox b"
  by (simp add: dividedBoundingBoxes_Cons dividedBoundingBoxes_Nil)

lemma divideBox_present:
  assumes "y_min b = Some ymin" "y_max b = Some ymax" "x_min b = Some xmin" "x_max b = Some xmax"
  shows "divideBox b =
     [\<lparr>COUNTY_NAME = COUNTY_NAME b, y_min = ymin, y_max = halve (add ymin ymax),
       x_min = xmin, x_max = halve (add xmin xmax)\<rparr>,
      \<lparr>COUNTY_NAME = COUNTY_NAME b, y_min = ymin, y_max = halve (add ymin ymax),
       x_min = halve (add xmin xmax), x_max = xmax\<rparr>,
      \<lparr>COUNTY_NAME = COUNTY_NAME b, y_min = halve (add ymin ymax), y_max = ymax,
       x_min = xmin, x_max = halve (add xmin xmax)\<rparr>,
      \<lparr>COUNTY_NAME = COUNTY_NAME b, y_min = halve (add ymin ymax), y_max = ymax,
       x_min = halve (add xmin xmax), x_max = xmax\<rparr>]"
  using assms by (simp add: divideBox_def Let_def)

lemma divideBox_null:
  "y_min b = None \<or> y_max b = None \<or> x_min b = None \<or> x_max b = None \<Longrightarrow> divideBox b = []"
  unfolding divideBox_def by presburger

lemma all_less_4: "(\<forall>i<4::nat. P i) \<longleftrightarrow> P 0 \<and> P 1 \<and> P 2 \<and> P 3"
proof -
  have "i < 4 \<longleftrightarrow> i = 0 \<or> i = 1 \<or> i = 2 \<or> i = 3" for i :: nat
    by arith
  then show ?thesis by auto
qed

text \<open>Order between bounds and coordinates.\<close>

lemma of_rat_mono: "a \<le> b \<Longrightarrow> (of_rat a :: real) \<le> of_rat b"
  by (simp add: of_rat_less_eq)

lemma at_least_le: "le a b \<Longrightarrow> at_least a r \<Longrightarrow> at_least b r"
  by (cases a; cases b) (auto dest!: of_rat_mono)

lemma at_most_le: "le a b \<Longrightarrow> at_most b r \<Longrightarrow> at_most a r"
  by (cases a; cases b) (auto dest!: of_rat_mono)

lemma le_left_comparable: "le a m \<Longrightarrow> at_least m r \<or> at_most m r"
  by (cases a; cases m) auto

lemma on_line_between: "at_least m r \<Longrightarrow> at_most m r \<Longrightarrow> on_line m r"
  by (cases m) auto

lemma quadrants_cover:
  assumes "le ymin ym" "le ym ymax" "le xmin xm" "le xm xmax"
  shows "extent \<lparr>COUNTY_NAME = c, y_min = ymin, y_max = ym, x_min = xmin, x_max = xm\<rparr>
       \<union> extent \<lparr>COUNTY_NAME = c, y_min = ymin, y_max = ym, x_min = xm, x_max = xmax\<rparr>
       \<union> extent \<lparr>COUNTY_NAME = c, y_min = ym, y_max = ymax, x_min = xmin, x_max = xm\<rparr>
       \<union> extent \<lparr>COUNTY_NAME = c, y_min = ym, y_max = ymax, x_min = xm, x_max = xmax\<rparr>
       = extent \<lparr>COUNTY_NAME = c, y_min = ymin, y_max = ymax, x_min = xmin, x_max = xmax\<rparr>"
proof (rule set_eqI)
  fix p :: "real \<times> real"
  obtain y x where p: "p = (y, x)" by (cases p)
  note up = at_least_le [OF assms(2), of y] at_least_le [OF assms(4), of x]
  note down = at_most_le [OF assms(1), of y] at_most_le [OF assms(3), of x]
  note split = le_left_comparable [OF assms(1), of y] le_left_comparable [OF assms(3), of x]
  show "p \<in> extent \<lparr>COUNTY_NAME = c, y_min = ymin, y_max = ym, x_min = xmin, x_max = xm\<rparr>
       \<union> extent \<lparr>COUNTY_NAME = c, y_min = ymin, y_max = ym, x_min = xm, x_max = xmax\<rparr>
       \<union> extent \<lparr>COUNTY_NAME = c, y_min = ym, y_max = ymax, x_min = xmin, x_max = xm\<rparr>
       \<union> extent \<lparr>COUNTY_NAME = c, y_min = ym, y_max = ymax, x_min = xm, x_max = xmax\<rparr>
       \<longleftrightarrow> p \<in> extent \<lparr>COUNTY_NAME = c, y_min = ymin, y_max = ymax, x_min = xmin, x_max = xmax\<rparr>"
    using up down split unfolding p extent_def inside_def by auto
qed

lemma quadrants_meet:
  fixes ymin ymax xmin xmax ym xm :: number and c :: "string option"
  defines "sw \<equiv> \<lparr>COUNTY_NAME = c, y_min = ymin, y_max = ym, x_min = xmin, x_max = xm\<rparr>"
    and "se \<equiv> \<lparr>COUNTY_NAME = c, y_min = ymin, y_max = ym, x_min = xm, x_max = xmax\<rparr>"
    and "nw \<equiv> \<lparr>COUNTY_NAME = c, y_min = ym, y_max = ymax, x_min = xmin, x_max = xm\<rparr>"
    and "ne \<equiv> \<lparr>COUNTY_NAME = c, y_min = ym, y_max = ymax, x_min = xm, x_max = xmax\<rparr>"
  shows "shared_edge ym xm (extent sw \<inter> extent se)" "shared_edge ym xm (extent se \<inter> extent sw)"
    and "shared_edge ym xm (extent sw \<inter> extent nw)" "shared_edge ym xm (extent nw \<inter> extent sw)"
    and "shared_edge ym xm (extent sw \<inter> extent ne)" "shared_edge ym xm (extent ne \<inter> extent sw)"
    and "shared_edge ym xm (extent se \<inter> extent nw)" "shared_edge ym xm (extent nw \<inter> extent se)"
    and "shared_edge ym xm (extent se \<inter> extent ne)" "shared_edge ym xm (extent ne \<inter> extent se)"
    and "shared_edge ym xm (extent nw \<inter> extent ne)" "shared_edge ym xm (extent ne \<inter> extent nw)"
  unfolding shared_edge_def sw_def se_def nw_def ne_def extent_def inside_def
  by (auto intro: on_line_between)

text \<open>The midpoints of the two example boxes.\<close>

lemma california_midpoints:
  "halve (add (Fin 32.5) (Fin 42)) = Fin 37.25"
  "halve (add (round_binary64 (-124.4)) (round_binary64 (-114.1))) = Fin (- 119.25)"
proof -
  have "(32.5 + 42 :: rat) = 74.5" by simp
  then have "add (Fin 32.5) (Fin 42) = Fin 74.5"
    by (simp only: add.simps round_74_5)
  moreover have "(74.5 / 2 :: rat) = 37.25" by simp
  ultimately show "halve (add (Fin 32.5) (Fin 42)) = Fin 37.25"
    by (simp only: halve.simps round_37_25)
  have "(- (4376935887850701 / 2 ^ 45) + - (4014536855335731 / 2 ^ 45) :: rat) = - 238.5"
    by simp
  then have "add (round_binary64 (-124.4)) (round_binary64 (-114.1)) = Fin (- 238.5)"
    by (simp only: round_124_4 round_114_1 add.simps round_238_5)
  moreover have "(- 238.5 / 2 :: rat) = - 119.25" by simp
  ultimately show "halve (add (round_binary64 (-124.4)) (round_binary64 (-114.1))) =
                   Fin (- 119.25)"
    by (simp only: halve.simps round_119_25)
qed

lemma overflow_midpoints:
  "halve (add (Fin (2 ^ 1023)) (Fin (3 * 2 ^ 1022))) = PInf"
  "halve (add (Fin 0) (Fin 1)) = Fin (1 / 2)"
proof -
  have "(2 ^ 1023 + 3 * 2 ^ 1022 :: rat) = 5 * 2 ^ 1022" by simp
  then have "add (Fin (2 ^ 1023)) (Fin (3 * 2 ^ 1022)) = PInf"
    by (simp only: add.simps round_overflow)
  then show "halve (add (Fin (2 ^ 1023)) (Fin (3 * 2 ^ 1022))) = PInf"
    by (simp only: halve.simps)
  have "(0 + 1 :: rat) = 1" by simp
  then have "add (Fin 0) (Fin 1) = Fin 1"
    by (simp only: add.simps round_1)
  then show "halve (add (Fin 0) (Fin 1)) = Fin (1 / 2)"
    by (simp only: halve.simps round_half)
qed

lemma california_quadrants:
  "dividedBoundingBoxes [california] =
     [\<lparr>COUNTY_NAME = None, y_min = Fin 32.5, y_max = Fin 37.25,
       x_min = round_binary64 (-124.4), x_max = Fin (- 119.25)\<rparr>,
      \<lparr>COUNTY_NAME = None, y_min = Fin 32.5, y_max = Fin 37.25,
       x_min = Fin (- 119.25), x_max = round_binary64 (-114.1)\<rparr>,
      \<lparr>COUNTY_NAME = None, y_min = Fin 37.25, y_max = Fin 42,
       x_min = round_binary64 (-124.4), x_max = Fin (- 119.25)\<rparr>,
      \<lparr>COUNTY_NAME = None, y_min = Fin 37.25, y_max = Fin 42,
       x_min = Fin (- 119.25), x_max = round_binary64 (-114.1)\<rparr>]"
proof -
  have p: "y_min california = Some (Fin 32.5)" "y_max california = Some (Fin 42)"
    "x_min california = Some (round_binary64 (-124.4))"
    "x_max california = Some (round_binary64 (-114.1))"
    and c: "COUNTY_NAME california = None"
    by (simp_all add: california_def)
  show ?thesis
    unfolding dividedBoundingBoxes_single divideBox_present [OF p] c california_midpoints
    by (rule refl)
qed

text \<open>
  Claim C1, as stated, fails. The box with \<open>y_min = 2 ^ 1023\<close> and \<open>y_max = 3 * 2 ^ 1022\<close>
  has all four bounds, and the sum of the two overflows: \<open>y_mid\<close> is \<open>Infinity\<close>. The
  south-west quadrant then reaches from \<open>y_min\<close> to \<open>Infinity\<close>, and the point
  \<open>(2 ^ 1024, 0)\<close> lies in its extent and not in the extent of the parent box: the union
  of the quadrants is not the parent.
\<close>

theorem subdivision_overflow_exceeds_box:
  "dividedBoundingBoxes [overflow_box] =
     [\<lparr>COUNTY_NAME = None, y_min = Fin (2 ^ 1023), y_max = PInf,
       x_min = Fin 0, x_max = Fin (1 / 2)\<rparr>,
      \<lparr>COUNTY_NAME = None, y_min = Fin (2 ^ 1023), y_max = PInf,
       x_min = Fin (1 / 2), x_max = Fin 1\<rparr>,
      \<lparr>COUNTY_NAME = None, y_min = PInf, y_max = Fin (3 * 2 ^ 1022),
       x_min = Fin 0, x_max = Fin (1 / 2)\<rparr>,
      \<lparr>COUNTY_NAME = None, y_min = PInf, y_max = Fin (3 * 2 ^ 1022),
       x_min = Fin (1 / 2), x_max = Fin 1\<rparr>]
 \<and> (2 ^ 1024, 0) \<in> extent (dividedBoundingBoxes [overflow_box] ! 0)
 \<and> (2 ^ 1024, 0) \<notin> extent \<lparr>COUNTY_NAME = None, y_min = Fin (2 ^ 1023),
                               y_max = Fin (3 * 2 ^ 1022), x_min = Fin 0, x_max = Fin 1\<rparr>"
proof -
  have p: "y_min overflow_box = Some (Fin (2 ^ 1023))"
    "y_max overflow_box = Some (Fin (3 * 2 ^ 1022))"
    "x_min overflow_box = Some (Fin 0)" "x_max overflow_box = Some (Fin 1)"
    and c: "COUNTY_NAME overflow_box = None"
    by (simp_all add: overflow_box_def)
  have qs: "dividedBoundingBoxes [overflow_box] =
     [\<lparr>COUNTY_NAME = None, y_min = Fin (2 ^ 1023), y_max = PInf,
       x_min = Fin 0, x_max = Fin (1 / 2)\<rparr>,
      \<lparr>COUNTY_NAME = None, y_min = Fin (2 ^ 1023), y_max = PInf,
       x_min = Fin (1 / 2), x_max = Fin 1\<rparr>,
      \<lparr>COUNTY_NAME = None, y_min = PInf, y_max = Fin (3 * 2 ^ 1022),
       x_min = Fin 0, x_max = Fin (1 / 2)\<rparr>,
      \<lparr>COUNTY_NAME = None, y_min = PInf, y_max = Fin (3 * 2 ^ 1022),
       x_min = Fin (1 / 2), x_max = Fin 1\<rparr>]"
    unfolding dividedBoundingBoxes_single divideBox_present [OF p] c overflow_midpoints
    by (rule refl)
  have inq: "(2 ^ 1024, 0) \<in> extent (dividedBoundingBoxes [overflow_box] ! 0)"
    unfolding qs by (simp add: extent_def inside_def)
  have out: "(2 ^ 1024, 0) \<notin> extent \<lparr>COUNTY_NAME = None, y_min = Fin (2 ^ 1023),
                               y_max = Fin (3 * 2 ^ 1022), x_min = Fin 0, x_max = Fin 1\<rparr>"
    by (simp add: extent_def inside_def)
  from qs inq out show ?thesis by (intro conjI)
qed

text \<open>
  Claim C1, amended. A box whose four bounds are present is split into exactly four
  quadrants, emitted in the order south-west, south-east, north-west, north-east around
  the midpoint \<open>y_mid = (y_min + y_max) / 2\<close>, \<open>x_mid = (x_min + x_max) / 2\<close> computed in
  double arithmetic. The extents of two quadrants at different positions share at most
  an edge: their common points all lie on one midline. When each computed midpoint lies
  between its two bounds, the union of the four extents is the extent of the parent box;
  and the midpoints do lie between the bounds whenever \<open>y_min \<le> y_max\<close>,
  \<open>x_min \<le> x_max\<close> and the four bounds are ordinary, that is, finite doubles of
  magnitude below \<open>2 ^ 1023\<close>.
\<close>

theorem subdivision_partitions_box:
  assumes "y_min b = Some ymin" "y_max b = Some ymax" "x_min b = Some xmin" "x_max b = Some xmax"
  defines "y_mid \<equiv> halve (add ymin ymax)" and "x_mid \<equiv> halve (add xmin xmax)"
  defines "qs \<equiv> dividedBoundingBoxes [b]"
  shows "qs =
     [\<lparr>COUNTY_NAME = COUNTY_NAME b, y_min = ymin, y_max = y_mid, x_min = xmin, x_max = x_mid\<rparr>,
      \<lparr>COUNTY_NAME = COUNTY_NAME b, y_min = ymin, y_max = y_mid, x_min = x_mid, x_max = xmax\<rparr>,
      \<lparr>COUNTY_NAME = COUNTY_NAME b, y_min = y_mid, y_max = ymax, x_min = xmin, x_max = x_mid\<rparr>,
      \<lparr>COUNTY_NAME = COUNTY_NAME b, y_min = y_mid, y_max = ymax, x_min = x_mid, x_max = xmax\<rparr>]
    \<and> length qs = 4
    \<and> (\<forall>i<4. \<forall>j<4. i \<noteq> j \<longrightarrow>
           shared_edge y_mid x_mid (extent (qs ! i) \<inter> extent (qs ! j)))
    \<and> (le ymin y_mid \<and> le y_mid ymax \<and> le xmin x_mid \<and> le x_mid xmax \<longrightarrow>
         (\<Union>q\<in>set qs. extent q) =
           extent \<lparr>COUNTY_NAME = COUNTY_NAME b,
                   y_min = ymin, y_max = ymax, x_min = xmin, x_max = xmax\<rparr>)
    \<and> (ordinary ymin \<and> ordinary ymax \<and> ordinary xmin \<and> ordinary xmax
         \<and> le ymin ymax \<and> le xmin xmax \<longrightarrow>
         le ymin y_mid \<and> le y_mid ymax \<and> le xmin x_mid \<and> le x_mid xmax
         \<and> (\<Union>q\<in>set qs. extent q) =
             extent \<lparr>COUNTY_NAME = COUNTY_NAME b,
                     y_min = ymin, y_max = ymax, x_min = xmin, x_max = xmax\<rparr>)"
proof -
  note qs = qs_def dividedBoundingBoxes_single divideBox_present [OF assms(1-4)]
  have 1: "qs =
     [\<lparr>COUNTY_NAME = COUNTY_NAME b, y_min = ymin, y_max = y_mid, x_min = xmin, x_max = x_mid\<rparr>,
      \<lparr>COUNTY_NAME = COUNTY_NAME b, y_min = ymin, y_max = y_mid, x_min = x_mid, x_max = xmax\<rparr>,
      \<lparr>COUNTY_NAME = COUNTY_NAME b, y_min = y_mid, y_max = ymax, x_min = xmin, x_max = x_mid\<rparr>,
      \<lparr>COUNTY_NAME = COUNTY_NAME b, y_min = y_mid, y_max = ymax, x_min = x_mid, x_max = xmax\<rparr>]"
    unfolding qs y_mid_def x_mid_def by (rule refl)
  have 2: "length qs = 4"
    unfolding qs by simp
  have 3: "\<forall>i<4. \<forall>j<4. i \<noteq> j \<longrightarrow>
           shared_edge y_mid x_mid (extent (qs ! i) \<inter> extent (qs ! j))"
    unfolding 1 all_less_4 by (simp add: quadrants_meet)
  have 4: "(\<Union>q\<in>set qs. extent q) =
           extent \<lparr>COUNTY_NAME = COUNTY_NAME b,
                   y_min = ymin, y_max = ymax, x_min = xmin, x_max = xmax\<rparr>"
    if "le ymin y_mid \<and> le y_mid ymax \<and> le xmin x_mid \<and> le x_mid xmax"
    unfolding 1
    using quadrants_cover [of ymin y_mid ymax xmin x_mid xmax "COUNTY_NAME b"] that
    by (simp add: Un_assoc)
  have 5: "le ymin y_mid \<and> le y_mid ymax \<and> le xmin x_mid \<and> le x_mid xmax"
    if "ordinary ymin \<and> ordinary ymax \<and> ordinary xmin \<and> ordinary xmax
         \<and> le ymin ymax \<and> le xmin xmax"
    using ordinary_midpoint [of ymin ymax] ordinary_midpoint [of xmin xmax] that
    unfolding y_mid_def x_mid_def by blast
  from 1 2 3 4 5 show ?thesis by blast
qed

text \<open>
  The box of California: the midpoints are \<open>37.25\<close> and \<open>-119.25\<close>, each between its
  bounds.
\<close>

theorem subdivision_partitions_box_witness:
  "dividedBoundingBoxes [california] =
     [\<lparr>COUNTY_NAME = None, y_min = Fin 32.5, y_max = Fin 37.25,
       x_min = round_binary64 (-124.4), x_max = Fin (- 119.25)\<rparr>,
      \<lparr>COUNTY_NAME = None, y_min = Fin 32.5, y_max = Fin 37.25,
       x_min = Fin (- 119.25), x_max = round_binary64 (-114.1)\<rparr>,
      \<lparr>COUNTY_NAME = None, y_min = Fin 37.25, y_max = Fin 42,
       x_min = round_binary64 (-124.4), x_max = Fin (- 119.25)\<rparr>,
      \<lparr>COUNTY_NAME = None, y_min = Fin 37.25, y_max = Fin 42,
       x_min = Fin (- 119.25), x_max = round_binary64 (-114.1)\<rparr>]
   \<and> ordinary (Fin 32.5) \<and> ordinary (Fin 42)
   \<and> ordinary (round_binary64 (-124.4)) \<and> ordinary (round_binary64 (-114.1))
   \<and> le (Fin 32.5) (Fin 42) \<and> le (round_binary64 (-124.4)) (round_binary64 (-114.1))
   \<and> le (Fin 32.5) (Fin 37.25) \<and> le (Fin 37.25) (Fin 42)
   \<and> le (round_binary64 (-124.4)) (Fin (- 119.25))
   \<and> le (Fin (- 119.25)) (round_binary64 (-114.1))
   \<and> (\<Union>q\<in>set (dividedBoundingBoxes [california]). extent q) =
       extent \<lparr>COUNTY_NAME = None, y_min = Fin 32.5, y_max = Fin 42,
               x_min = round_binary64 (-124.4), x_max = round_binary64 (-114.1)\<rparr>
   \<and> shared_edge (Fin 37.25) (Fin (- 119.25))
        (extent (dividedBoundingBoxes [california] ! 0)
         \<inter> extent (dividedBoundingBoxes [california] ! 3))"
proof -
  have p: "y_min california = Some (Fin 32.5)" "y_max california = Some (Fin 42)"
    "x_min california = Some (round_binary64 (-124.4))"
    "x_max california = Some (round_binary64 (-114.1))"
    by (simp_all add: california_def)
  have c: "COUNTY_NAME california = None"
    by (simp add: california_def)
  have o: "le (Fin 32.5) (Fin 42)" "le (round_binary64 (-124.4)) (round_binary64 (-114.1))"
    unfolding round_124_4 round_114_1 by simp_all
  note t = subdivision_partitions_box [OF p, unfolded c california_midpoints]
  from t california_ordinary o
  have h: "le (Fin 32.5) (Fin 37.25)" "le (Fin 37.25) (Fin 42)"
    "le (round_binary64 (-124.4)) (Fin (- 119.25))"
    "le (Fin (- 119.25)) (round_binary64 (-114.1))"
    by blast+
  from t have 1: "dividedBoundingBoxes [california] =
     [\<lparr>COUNTY_NAME = None, y_min = Fin 32.5, y_max = Fin 37.25,
       x_min = round_binary64 (-124.4), x_max = Fin (- 119.25)\<rparr>,
      \<lparr>COUNTY_NAME = None, y_min = Fin 32.5, y_max = Fin 37.25,
       x_min = Fin (- 119.25), x_max = round_binary64 (-114.1)\<rparr>,
      \<lparr>COUNTY_NAME = None, y_min = Fin 37.25, y_max = Fin 42,
       x_min = round_binary64 (-124.4), x_max = Fin (- 119.25)\<rparr>,
      \<lparr>COUNTY_NAME = None, y_min = Fin 37.25, y_max = Fin 42,
       x_min = Fin (- 119.25), x_max = round_binary64 (-114.1)\<rparr>]"
    by (rule conjunct1)
  from t h have 2: "(\<Union>q\<in>set (dividedBoundingBoxes [california]). extent q) =
       extent \<lparr>COUNTY_NAME = None, y_min = Fin 32.5, y_max = Fin 42,
               x_min = round_binary64 (-124.4), x_max = round_binary64 (-114.1)\<rparr>"
    by blast
  have 3: "shared_edge (Fin 37.25) (Fin (- 119.25))
        (extent (dividedBoundingBoxes [california] ! 0)
         \<inter> extent (dividedBoundingBoxes [california] ! 3))"
    using t [THEN conjunct2, THEN conjunct2, THEN conjunct1, rule_format, of 0 3]
    by simp
  from 1 california_ordinary o h 2 3 show ?thesis by (intro conjI)
qed

text \<open>
  Claim C5. A box in which at least one of the four bounds is \<open>null\<close> yields no
  quadrant at all: the subdivision of the box alone is the empty sequence, and inside a
  longer array the box is skipped while the boxes around it are still subdivided.
\<close>

theorem null_bound_no_quadrants:
  assumes "y_min b = None \<or> y_max b = None \<or> x_min b = None \<or> x_max b = None"
  shows "dividedBoundingBoxes [b] = []
       \<and> length (dividedBoundingBoxes [b]) = 0
       \<and> dividedBoundingBoxes (as @ b # bs) = dividedBoundingBoxes (as @ bs)"
proof -
  from assms have "divideBox b = []"
    unfolding divideBox_def by presburger
  then show ?thesis
    by (simp add: dividedBoundingBoxes_append dividedBoundingBoxes_Cons dividedBoundingBoxes_Nil)
qed

theorem null_bound_no_quadrants_witness:
  "dividedBoundingBoxes
     [\<lparr>COUNTY_NAME = None, y_min = Some (Fin 32.5), y_max = None,
       x_min = Some (round_binary64 (-124.4)), x_max = Some (round_binary64 (-114.1))\<rparr>] = []"
  using null_bound_no_quadrants
    [of "\<lparr>COUNTY_NAME = None, y_min = Some (Fin 32.5), y_max = None,
          x_min = Some (round_binary64 (-124.4)),
          x_max = Some (round_binary64 (-114.1))\<rparr>" "[]" "[]"]
  by simp

lemma divideBox_truncate: "divideBox b = divideBox (box.truncate b)"
  by (simp add: divideBox_def box.truncate_def)

lemma dividedBoundingBoxes_truncate:
  "dividedBoundingBoxes bs = dividedBoundingBoxes (map box.truncate bs)"
proof (induction bs)
  case Nil
  show ?case by (simp add: dividedBoundingBoxes_Nil)
next
  case (Cons b bs)
  then show ?case
    using divideBox_truncate [of b] by (simp add: dividedBoundingBoxes_Cons)
qed

text \<open>
  Claim C8. The subdivision is a function of the box alone: its result is determined by
  the label and the four bounds of each box, whatever the other columns of the rows are.
  Two arrays of boxes that agree on these five fields, and so the same array subdivided
  twice, give the same quadrants in the same order.
\<close>

theorem subdivision_deterministic:
  fixes bs :: "'m row list" and bs' :: "'k row list"
  assumes "map box.truncate bs = map box.truncate bs'"
  shows "dividedBoundingBoxes bs = dividedBoundingBoxes bs'"
proof -
  have "dividedBoundingBoxes bs = dividedBoundingBoxes (map box.truncate bs)"
    by (rule dividedBoundingBoxes_truncate)
  also have "\<dots> = dividedBoundingBoxes (map box.truncate bs')"
    by (simp only: assms)
  also have "\<dots> = dividedBoundingBoxes bs'"
    by (rule dividedBoundingBoxes_truncate [symmetric])
  finally show ?thesis .
qed

theorem subdivision_deterministic_witness:
  "dividedBoundingBoxes [california] =
   dividedBoundingBoxes [box.extend california ''California'']"
proof -
  have "map box.truncate [california] = map box.truncate [box.extend california ''California'']"
    by (simp add: california_def box.truncate_def box.extend_def)
  then show ?thesis
    by (rule subdivision_deterministic)
qed

text \<open>
  Claim C9. The subdivision never compares a minimum with a maximum: a box yields four
  quadrants exactly when its four bounds are present, also when \<open>y_min > y_max\<close> or
  \<open>x_min > x_max\<close>, and it yields none exactly when one of the bounds is \<open>null\<close>.
\<close>

theorem subdivision_ignores_ordering:
  "(length (dividedBoundingBoxes [b]) = 4 \<longleftrightarrow>
      y_min b \<noteq> None \<and> y_max b \<noteq> None \<and> x_min b \<noteq> None \<and> x_max b \<noteq> None)
 \<and> (dividedBoundingBoxes [b] = [] \<longleftrightarrow>
      y_min b = None \<or> y_max b = None \<or> x_min b = None \<or> x_max b = None)
 \<and> (y_min b = Some ymin \<and> y_max b = Some ymax \<and> x_min b = Some xmin \<and> x_max b = Some xmax
      \<and> (lt ymax ymin \<or> lt xmax xmin)
      \<longrightarrow> length (dividedBoundingBoxes [b]) = 4)"
  by (auto simp: dividedBoundingBoxes_single divideBox_def Let_def)

theorem subdivision_ignores_ordering_witness:
  "length (dividedBoundingBoxes
     [\<lparr>COUNTY_NAME = None, y_min = Some (Fin 42), y_max = Some (Fin 32.5),
       x_min = Some (round_binary64 (-114.1)), x_max = Some (round_binary64 (-124.4))\<rparr>]) = 4"
proof -
  have "lt (Fin 32.5) (Fin 42) \<or> lt (round_binary64 (-124.4)) (round_binary64 (-114.1))"
    by simp
  with subdivision_ignores_ordering
    [of "\<lparr>COUNTY_NAME = None, y_min = Some (Fin 42), y_max = Some (Fin 32.5),
          x_min = Some (round_binary64 (-114.1)),
          x_max = Some (round_binary64 (-124.4))\<rparr>"
        "Fin 42" "Fin 32.5" "round_binary64 (-114.1)" "round_binary64 (-124.4)"]
  show ?thesis by simp
qed

section \<open>Properties of the lookup\<close>

lemma try_body_failed:
  assumes "attempt_failed (store n (boundingBoxesQuery state))"
  shows "fst (try_body store state n bb c) = Inl (thrown (store n (boundingBoxesQuery state)) state)"
  using assms
  by (auto simp: try_body_def attempt_failed_def thrown_def Let_def split: sum.splits option.splits)

lemma try_body_ok:
  assumes "\<not> attempt_failed (store n (boundingBoxesQuery state))"
  shows "\<exists>res rows. store n (boundingBoxesQuery state) = Inr res \<and> error res = None
           \<and> data res = Some rows \<and> rows \<noteq> []
           \<and> fst (try_body store state n bb c) = Inr ()
           \<and> fst (snd (try_body store state n bb c)) = Some rows"
  using assms
  by (auto simp: try_body_def attempt_failed_def Let_def split: sum.splits option.splits)

lemma try_body_cases:
  obtains (ok) res rows c' where "store n (boundingBoxesQuery state) = Inr res" "error res = None"
      "data res = Some rows" "rows \<noteq> []"
      "try_body store state n bb c = (Inr (), Some rows, c')"
      "\<not> attempt_failed (store n (boundingBoxesQuery state))"
  | (failed) bb' c' where "attempt_failed (store n (boundingBoxesQuery state))"
      "try_body store state n bb c = (Inl (thrown (store n (boundingBoxesQuery state)) state), bb', c')"
proof (cases "attempt_failed (store n (boundingBoxesQuery state))")
  case True
  from try_body_failed [of store n state bb c, OF True] failed [OF True] show ?thesis
    by (metis prod.collapse)
next
  case False
  from try_body_ok [of store n state bb c, OF False] ok False show ?thesis
    by (metis prod.collapse)
qed

lemmas retry_loop_unfold = retry_loop.simps

lemmas toString_unfold = toString.simps

declare retry_loop.simps [simp del] toString.simps [simp del]

lemma retry_loop_done:
  "\<not> attempt < maxRetries \<Longrightarrow> retry_loop store state attempt bb c = (Inr bb, attempt, c)"
  by (simp add: retry_loop_unfold [of store state attempt])

lemma retry_loop_exit:
  assumes "fst (retry_loop store state attempt bb c) = Inr r"
  shows "(attempt < maxRetries \<and> (\<exists>rows. r = Some rows \<and> rows \<noteq> []))
       \<or> (\<not> attempt < maxRetries \<and> r = bb)"
  using assms
proof (induction store state attempt bb c rule: retry_loop.induct)
  case (1 store state attempt boundingBoxes console)
  show ?case
  proof (cases "attempt < maxRetries")
    case False
    with "1.prems" show ?thesis
      by (simp add: retry_loop_done)
  next
    case True
    show ?thesis
    proof (cases rule: try_body_cases [of store "attempt + 1" state boundingBoxes console])
      case (ok res rows c')
      with True "1.prems" show ?thesis
        by (auto simp: retry_loop_unfold [of store state attempt])
    next
      case (failed bb' c')
      show ?thesis
      proof (cases "attempt + 1 \<ge> maxRetries")
        case True
        with \<open>attempt < maxRetries\<close> failed "1.prems" show ?thesis
          by (simp add: retry_loop_unfold [of store state attempt])
      next
        case False
        with \<open>attempt < maxRetries\<close> failed "1.prems"
        have "fst (retry_loop store state (attempt + 1) bb' c') = Inr r"
          by (simp add: retry_loop_unfold [of store state attempt])
        from "1.IH" [OF \<open>attempt < maxRetries\<close> failed(2) [symmetric] refl refl False this] False
        show ?thesis using True by simp
      qed
    qed
  qed
qed

lemma retry_loop_success:
  assumes "attempt < maxRetries" "\<not> attempt_failed (store (attempt + 1) (boundingBoxesQuery state))"
  shows "\<exists>res rows c'. store (attempt + 1) (boundingBoxesQuery state) = Inr res \<and> error res = None
           \<and> data res = Some rows \<and> rows \<noteq> []
           \<and> retry_loop store state attempt bb c = (Inr (Some rows), attempt + 1, c')"
proof (cases rule: try_body_cases [of store "attempt + 1" state bb c])
  case (ok res rows c')
  with assms(1) show ?thesis
    by (simp add: retry_loop_unfold [of store state attempt])
next
  case (failed bb' c')
  with assms(2) show ?thesis by simp
qed

lemma retry_loop_retry:
  assumes "attempt + 1 < maxRetries" "attempt_failed (store (attempt + 1) (boundingBoxesQuery state))"
  shows "\<exists>bb' c'. retry_loop store state attempt bb c = retry_loop store state (attempt + 1) bb' c'"
proof (cases rule: try_body_cases [of store "attempt + 1" state bb c])
  case (ok res rows c')
  with assms(2) show ?thesis by simp
next
  case (failed bb' c')
  from assms(1) have "attempt < maxRetries" "\<not> maxRetries \<le> attempt + 1" by simp_all
  with failed(2) have "retry_loop store state attempt bb c = retry_loop store state (attempt + 1) bb' c'"
    by (simp add: retry_loop_unfold [of store state attempt])
  then show ?thesis by blast
qed

lemma retry_loop_exhausted:
  assumes "attempt + 1 = maxRetries" "attempt_failed (store (attempt + 1) (boundingBoxesQuery state))"
  shows "\<exists>c'. retry_loop store state attempt bb c =
           (Inl (thrown (store (attempt + 1) (boundingBoxesQuery state)) state), attempt + 1,
            c' @ [ConsoleError (''Failed after '' @ toString maxRetries @ '' attempts: '' @
                    message (thrown (store (attempt + 1) (boundingBoxesQuery state)) state))])"
proof (cases rule: try_body_cases [of store "attempt + 1" state bb c])
  case (ok res rows c')
  with assms(2) show ?thesis by simp
next
  case (failed bb' c')
  from assms(1) have "attempt < maxRetries" "maxRetries \<le> attempt + 1" by simp_all
  with failed(2) show ?thesis
    by (simp add: retry_loop_unfold [of store state attempt])
qed

lemma retry_loop_attempts:
  "attempt \<le> fst (snd (retry_loop store state attempt bb c))
   \<and> (attempt \<le> maxRetries \<longrightarrow> fst (snd (retry_loop store state attempt bb c)) \<le> maxRetries)"
proof (induction store state attempt bb c rule: retry_loop.induct)
  case (1 store state attempt boundingBoxes console)
  show ?case
  proof (cases "attempt < maxRetries")
    case False
    then show ?thesis
      by (simp add: retry_loop_done)
  next
    case True
    show ?thesis
    proof (cases rule: try_body_cases [of store "attempt + 1" state boundingBoxes console])
      case (ok res rows c')
      with True show ?thesis
        by (simp add: retry_loop_unfold [of store state attempt])
    next
      case (failed bb' c')
      show ?thesis
      proof (cases "attempt + 1 \<ge> maxRetries")
        case True
        with \<open>attempt < maxRetries\<close> failed show ?thesis
          by (simp add: retry_loop_unfold [of store state attempt])
      next
        case False
        from "1.IH" [OF \<open>attempt < maxRetries\<close> failed(2) [symmetric] refl refl False] False
          \<open>attempt < maxRetries\<close> failed(2)
        show ?thesis
          by (simp add: retry_loop_unfold [of store state attempt])
      qed
    qed
  qed
qed

lemma toString_maxRetries: "toString maxRetries = ''3''"
  by (simp add: maxRetries_def digit_def toString_unfold)

lemma nat_steps: "(0::nat) + 1 = 1" "(1::nat) + 1 = 2" "(2::nat) + 1 = 3"
  by simp_all

lemma retry_two_failures:
  fixes store :: "'m store"
  assumes "attempt_failed (store 1 (boundingBoxesQuery state))"
    and "attempt_failed (store 2 (boundingBoxesQuery state))"
  shows "\<exists>bb c. retry_loop store state 0 None [] = retry_loop store state 2 bb c"
proof -
  have lt: "(0::nat) + 1 < maxRetries" "(1::nat) + 1 < maxRetries"
    by (simp_all add: maxRetries_def)
  from retry_loop_retry [of 0 store state None "[]", OF lt(1)] assms(1)
  obtain bb' c' where 1: "retry_loop store state 0 None [] = retry_loop store state 1 bb' c'"
    unfolding nat_steps by blast
  from retry_loop_retry [of 1 store state bb' c', OF lt(2)] assms(2)
  obtain bb'' c'' where "retry_loop store state 1 bb' c' = retry_loop store state 2 bb'' c''"
    unfolding nat_steps by blast
  with 1 show ?thesis by auto
qed

lemma lookup_attempts:
  "fst (snd (lookup store state)) = fst (snd (retry_loop store state 0 None []))"
  unfolding lookup_def
  by (cases "retry_loop store state 0 None []") (simp split: sum.splits option.splits)

lemma lookup_Inl:
  "fst (retry_loop store state 0 None []) = Inl err \<Longrightarrow> fst (lookup store state) = Inl err"
  unfolding lookup_def
  by (cases "retry_loop store state 0 None []") (simp split: sum.splits option.splits)

lemma lookup_Inr:
  "fst (retry_loop store state 0 None []) = Inr (Some rows) \<Longrightarrow>
   fst (lookup store state) = Inr rows"
  unfolding lookup_def
  by (cases "retry_loop store state 0 None []") (simp split: sum.splits option.splits)

lemma announced_append: "announced (c @ c') = announced c @ announced c'"
  by (induction c rule: announced.induct) simp_all

lemma try_body_announced:
  "announced (snd (snd (try_body store state n bb c))) = announced c @ [querying state n]"
  by (simp add: try_body_def querying_def Let_def announced_append
        split: sum.splits option.splits)

text \<open>The loop, unrolled: at most three attempts, one after the other.\<close>

lemma retry_loop_unrolled:
  "retry_loop store state 0 None [] =
     (case try_body store state 1 None [] of
        (Inr u, bb1, c1) \<Rightarrow> (Inr bb1, 1, c1)
      | (Inl e1, bb1, c1) \<Rightarrow>
          (case try_body store state 2 bb1 c1 of
             (Inr u, bb2, c2) \<Rightarrow> (Inr bb2, 2, c2)
           | (Inl e2, bb2, c2) \<Rightarrow>
               (case try_body store state 3 bb2 c2 of
                  (Inr u, bb3, c3) \<Rightarrow> (Inr bb3, 3, c3)
                | (Inl e3, bb3, c3) \<Rightarrow>
                    (Inl e3, 3,
                     c3 @ [ConsoleError (''Failed after 3 attempts: '' @ message e3)]))))"
proof -
  have lt: "(0::nat) < maxRetries" "(1::nat) < maxRetries" "(2::nat) < maxRetries"
    "\<not> maxRetries \<le> (1::nat)" "\<not> maxRetries \<le> (2::nat)" "maxRetries \<le> (3::nat)"
    by (simp_all add: maxRetries_def)
  show ?thesis
    unfolding retry_loop_unfold [of store state 0] retry_loop_unfold [of store state 1]
      retry_loop_unfold [of store state 2] nat_steps toString_maxRetries
    using lt by (simp split: prod.splits sum.splits)
qed

lemma lookup_console:
  "snd (snd (lookup store state)) = snd (snd (retry_loop store state 0 None []))"
  unfolding lookup_def
  by (cases "retry_loop store state 0 None []") (simp split: sum.splits option.splits)

lemma upt_attempts:
  "[Suc 0..<2] = [Suc 0]" "[Suc 0..<3] = [Suc 0, 2]" "[Suc 0..<4] = [Suc 0, 2, 3]"
  by code_simp+

lemma retry_loop_announced:
  "announced (snd (snd (retry_loop store state 0 None []))) =
   map (querying state) [1..<Suc (fst (snd (retry_loop store state 0 None [])))]"
proof -
  obtain r1 bb1 c1 where t1: "try_body store state 1 None [] = (r1, bb1, c1)"
    by (cases "try_body store state 1 None []")
  obtain r2 bb2 c2 where t2: "try_body store state 2 bb1 c1 = (r2, bb2, c2)"
    by (cases "try_body store state 2 bb1 c1")
  obtain r3 bb3 c3 where t3: "try_body store state 3 bb2 c2 = (r3, bb3, c3)"
    by (cases "try_body store state 3 bb2 c2")
  from try_body_announced [of store state 1 None "[]"] t1
  have a1: "announced c1 = [querying state 1]" by simp
  from try_body_announced [of store state 2 bb1 c1] t2 a1
  have a2: "announced c2 = [querying state 1, querying state 2]" by simp
  from try_body_announced [of store state 3 bb2 c2] t3 a2
  have a3: "announced c3 = [querying state 1, querying state 2, querying state 3]" by simp
  show ?thesis
    using t1 t2 t3 a1 a2 a3
    by (cases r1; cases r2; cases r3)
       (simp_all add: retry_loop_unrolled upt_attempts announced_append)
qed

lemma lookup_first_success:
  fixes store :: "'m store"
  assumes "\<not> attempt_failed (store 1 (boundingBoxesQuery state))"
  shows "\<exists>res rows. store 1 (boundingBoxesQuery state) = Inr res \<and> error res = None
           \<and> data res = Some rows \<and> rows \<noteq> [] \<and> fst (lookup store state) = Inr rows
           \<and> fst (snd (lookup store state)) = 1"
proof -
  have lt: "(0::nat) < maxRetries" by (simp add: maxRetries_def)
  from retry_loop_success [of 0 store state None "[]", OF lt] assms
  obtain res rows c' where r: "store 1 (boundingBoxesQuery state) = Inr res" "error res = None"
    "data res = Some rows" "rows \<noteq> []"
    "retry_loop store state 0 None [] = (Inr (Some rows), 1, c')"
    unfolding nat_steps by blast
  from r(5) have "fst (lookup store state) = Inr rows" "fst (snd (lookup store state)) = 1"
    by (simp_all add: lookup_Inr lookup_attempts)
  with r(1-4) show ?thesis by blast
qed

lemma lookup_second_success:
  fixes store :: "'m store"
  assumes "attempt_failed (store 1 (boundingBoxesQuery state))"
    and "\<not> attempt_failed (store 2 (boundingBoxesQuery state))"
  shows "\<exists>res rows. store 2 (boundingBoxesQuery state) = Inr res \<and> error res = None
           \<and> data res = Some rows \<and> rows \<noteq> [] \<and> fst (lookup store state) = Inr rows
           \<and> fst (snd (lookup store state)) = 2"
proof -
  have lt: "(0::nat) + 1 < maxRetries" "(1::nat) < maxRetries" by (simp_all add: maxRetries_def)
  from retry_loop_retry [of 0 store state None "[]", OF lt(1)] assms(1)
  obtain bb c where 1: "retry_loop store state 0 None [] = retry_loop store state 1 bb c"
    unfolding nat_steps by blast
  from retry_loop_success [of 1 store state bb c, OF lt(2)] assms(2)
  obtain res rows c' where r: "store 2 (boundingBoxesQuery state) = Inr res" "error res = None"
    "data res = Some rows" "rows \<noteq> []"
    "retry_loop store state 1 bb c = (Inr (Some rows), 2, c')"
    unfolding nat_steps by blast
  from 1 r(5) have "fst (lookup store state) = Inr rows" "fst (snd (lookup store state)) = 2"
    by (simp_all add: lookup_Inr lookup_attempts)
  with r(1-4) show ?thesis by blast
qed

lemma lookup_third_success:
  fixes store :: "'m store"
  assumes "attempt_failed (store 1 (boundingBoxesQuery state))"
    and "attempt_failed (store 2 (boundingBoxesQuery state))"
    and "\<not> attempt_failed (store 3 (boundingBoxesQuery state))"
  shows "\<exists>res rows. store 3 (boundingBoxesQuery state) = Inr res \<and> error res = None
           \<and> data res = Some rows \<and> rows \<noteq> [] \<and> fst (lookup store state) = Inr rows
           \<and> fst (snd (lookup store state)) = 3"
proof -
  have lt: "(2::nat) < maxRetries" by (simp add: maxRetries_def)
  from retry_two_failures [of store state, OF assms(1,2)] obtain bb c
    where 2: "retry_loop store state 0 None [] = retry_loop store state 2 bb c" by blast
  from retry_loop_success [of 2 store state bb c, OF lt] assms(3)
  obtain res rows c' where r: "store 3 (boundingBoxesQuery state) = Inr res" "error res = None"
    "data res = Some rows" "rows \<noteq> []"
    "retry_loop store state 2 bb c = (Inr (Some rows), 3, c')"
    unfolding nat_steps by blast
  from 2 r(5) have "fst (lookup store state) = Inr rows" "fst (snd (lookup store state)) = 3"
    by (simp_all add: lookup_Inr lookup_attempts)
  with r(1-4) show ?thesis by blast
qed

lemma lookup_all_failed:
  fixes store :: "'m store"
  assumes "attempt_failed (store 1 (boundingBoxesQuery state))"
    and "attempt_failed (store 2 (boundingBoxesQuery state))"
    and "attempt_failed (store 3 (boundingBoxesQuery state))"
  shows "fst (lookup store state) = Inl (thrown (store 3 (boundingBoxesQuery state)) state)
       \<and> fst (snd (lookup store state)) = 3"
proof -
  have lt: "(2::nat) + 1 = maxRetries" by (simp add: maxRetries_def)
  from retry_two_failures [of store state, OF assms(1,2)] obtain bb c
    where 2: "retry_loop store state 0 None [] = retry_loop store state 2 bb c" by blast
  from retry_loop_exhausted [of 2 store state bb c, OF lt] assms(3)
  obtain c' where "retry_loop store state 2 bb c =
      (Inl (thrown (store 3 (boundingBoxesQuery state)) state), 3, c')"
    unfolding nat_steps by blast
  with 2 show ?thesis
    by (simp add: lookup_Inl lookup_attempts)
qed

text \<open>
  Claim C3. The lookup makes between one and three attempts, one query each, and the
  \<open>try\<close> block of an attempt throws exactly when its query errors or returns no rows.
  The loop is three attempts in sequence that stop at the first success, and the console
  carries one line \<open>Attempt n: Querying ...\<close> for every attempt made, numbered from \<open>1\<close>.
  The lookup returns the rows of the first query that succeeds, after as many attempts;
  in particular, when the first two attempts fail and the third succeeds, it returns the
  rows of the third query after exactly three attempts, and when all three fail, it
  throws what the third attempt threw after exactly three attempts.
\<close>

theorem lookup_retry:
  fixes store :: "'m store" and state :: string
  defines "q \<equiv> boundingBoxesQuery state"
  defines "attempts \<equiv> fst (snd (lookup store state))"
  defines "console \<equiv> snd (snd (lookup store state))"
  shows "1 \<le> attempts \<and> attempts \<le> 3
     \<and> (\<forall>n bb c. (\<exists>err. fst (try_body store state n bb c) = Inl err) \<longleftrightarrow>
            attempt_failed (store n q))
     \<and> retry_loop store state 0 None [] =
         (case try_body store state 1 None [] of
            (Inr u, bb1, c1) \<Rightarrow> (Inr bb1, 1, c1)
          | (Inl e1, bb1, c1) \<Rightarrow>
              (case try_body store state 2 bb1 c1 of
                 (Inr u, bb2, c2) \<Rightarrow> (Inr bb2, 2, c2)
               | (Inl e2, bb2, c2) \<Rightarrow>
                   (case try_body store state 3 bb2 c2 of
                      (Inr u, bb3, c3) \<Rightarrow> (Inr bb3, 3, c3)
                    | (Inl e3, bb3, c3) \<Rightarrow>
                        (Inl e3, 3,
                         c3 @ [ConsoleError (''Failed after 3 attempts: '' @ message e3)]))))
     \<and> attempts = fst (snd (retry_loop store state 0 None []))
     \<and> console = snd (snd (retry_loop store state 0 None []))
     \<and> announced console = map (querying state) [1..<Suc attempts]
     \<and> (\<not> attempt_failed (store 1 q)
          \<longrightarrow> (\<exists>res rows. store 1 q = Inr res \<and> error res = None \<and> data res = Some rows
                 \<and> rows \<noteq> [] \<and> fst (lookup store state) = Inr rows) \<and> attempts = 1)
     \<and> (attempt_failed (store 1 q) \<and> \<not> attempt_failed (store 2 q)
          \<longrightarrow> (\<exists>res rows. store 2 q = Inr res \<and> error res = None \<and> data res = Some rows
                 \<and> rows \<noteq> [] \<and> fst (lookup store state) = Inr rows) \<and> attempts = 2)
     \<and> (attempt_failed (store 1 q) \<and> attempt_failed (store 2 q) \<and> \<not> attempt_failed (store 3 q)
          \<longrightarrow> (\<exists>res rows. store 3 q = Inr res \<and> error res = None \<and> data res = Some rows
                 \<and> rows \<noteq> [] \<and> fst (lookup store state) = Inr rows) \<and> attempts = 3
              \<and> announced console = [querying state 1, querying state 2, querying state 3])
     \<and> (attempt_failed (store 1 q) \<and> attempt_failed (store 2 q) \<and> attempt_failed (store 3 q)
          \<longrightarrow> fst (lookup store state) = Inl (thrown (store 3 q) state) \<and> attempts = 3
              \<and> announced console = [querying state 1, querying state 2, querying state 3])"
proof -
  have att: "attempts = fst (snd (retry_loop store state 0 None []))"
    unfolding attempts_def by (rule lookup_attempts)
  have con: "console = snd (snd (retry_loop store state 0 None []))"
    unfolding console_def by (rule lookup_console)
  have ann: "announced console = map (querying state) [1..<Suc attempts]"
    unfolding att con by (rule retry_loop_announced)
  have fails_iff: "\<forall>n bb c. (\<exists>err. fst (try_body store state n bb c) = Inl err) \<longleftrightarrow>
            attempt_failed (store n q)"
  proof (intro allI)
    fix n bb c
    show "(\<exists>err. fst (try_body store state n bb c) = Inl err) \<longleftrightarrow>
            attempt_failed (store n q)"
      using try_body_failed [of store n state bb c] try_body_ok [of store n state bb c]
      unfolding q_def by (cases "attempt_failed (store n (boundingBoxesQuery state))") auto
  qed
  have first: "(\<exists>res rows. store 1 q = Inr res \<and> error res = None \<and> data res = Some rows
                 \<and> rows \<noteq> [] \<and> fst (lookup store state) = Inr rows) \<and> attempts = 1"
    if "\<not> attempt_failed (store 1 q)"
    using lookup_first_success [of store state] that unfolding q_def attempts_def by blast
  have second: "(\<exists>res rows. store 2 q = Inr res \<and> error res = None \<and> data res = Some rows
                 \<and> rows \<noteq> [] \<and> fst (lookup store state) = Inr rows) \<and> attempts = 2"
    if "attempt_failed (store 1 q) \<and> \<not> attempt_failed (store 2 q)"
    using lookup_second_success [of store state] that unfolding q_def attempts_def by blast
  have third: "(\<exists>res rows. store 3 q = Inr res \<and> error res = None \<and> data res = Some rows
                 \<and> rows \<noteq> [] \<and> fst (lookup store state) = Inr rows) \<and> attempts = 3
              \<and> announced console = [querying state 1, querying state 2, querying state 3]"
    if f: "attempt_failed (store 1 q) \<and> attempt_failed (store 2 q) \<and> \<not> attempt_failed (store 3 q)"
  proof -
    from lookup_third_success [of store state] f
    have r: "(\<exists>res rows. store 3 q = Inr res \<and> error res = None \<and> data res = Some rows
                 \<and> rows \<noteq> [] \<and> fst (lookup store state) = Inr rows) \<and> attempts = 3"
      unfolding q_def attempts_def by blast
    with ann have "announced console = [querying state 1, querying state 2, querying state 3]"
      by (simp add: upt_attempts)
    with r show ?thesis by blast
  qed
  have none: "fst (lookup store state) = Inl (thrown (store 3 q) state) \<and> attempts = 3
              \<and> announced console = [querying state 1, querying state 2, querying state 3]"
    if f: "attempt_failed (store 1 q) \<and> attempt_failed (store 2 q) \<and> attempt_failed (store 3 q)"
  proof -
    from lookup_all_failed [of store state] f
    have r: "fst (lookup store state) = Inl (thrown (store 3 q) state) \<and> attempts = 3"
      unfolding q_def attempts_def by blast
    with ann have "announced console = [querying state 1, querying state 2, querying state 3]"
      by (simp add: upt_attempts)
    with r show ?thesis by blast
  qed
  have bounds: "1 \<le> attempts \<and> attempts \<le> 3"
  proof (cases "attempt_failed (store 1 q)")
    case False
    with first show ?thesis by simp
  next
    case f1: True
    show ?thesis
    proof (cases "attempt_failed (store 2 q)")
      case False
      with f1 second show ?thesis by simp
    next
      case f2: True
      show ?thesis
      proof (cases "attempt_failed (store 3 q)")
        case False
        with f1 f2 third show ?thesis by simp
      next
        case True
        with f1 f2 none show ?thesis by simp
      qed
    qed
  qed
  from bounds fails_iff retry_loop_unrolled [of store state] att con ann first second third none
  show ?thesis by (intro conjI impI) blast+
qed

text \<open>
  A store that fails twice and then finds the box of California, and a store that never
  finds a row.
\<close>

theorem lookup_retry_witness:
  "fst (lookup flaky_store ''california'') = Inr [california]
 \<and> fst (snd (lookup flaky_store ''california'')) = 3
 \<and> announced (snd (snd (lookup flaky_store ''california''))) =
     [''Attempt 1: Querying bounding boxes for state: california'',
      ''Attempt 2: Querying bounding boxes for state: california'',
      ''Attempt 3: Querying bounding boxes for state: california'']
 \<and> fst (lookup empty_store ''california'') =
     Inl (Error ''No bounding boxes found for state: california'')
 \<and> fst (snd (lookup empty_store ''california'')) = 3
 \<and> fst (lookup found_store ''california'') = Inr [california]
 \<and> fst (snd (lookup found_store ''california'')) = 1"
proof -
  let ?q = "boundingBoxesQuery ''california''"
  have lines: "querying ''california'' 1 =
        ''Attempt 1: Querying bounding boxes for state: california''"
    "querying ''california'' 2 = ''Attempt 2: Querying bounding boxes for state: california''"
    "querying ''california'' 3 = ''Attempt 3: Querying bounding boxes for state: california''"
    by (simp_all add: querying_def toString_unfold digit_def)
  have flaky: "attempt_failed (flaky_store 1 ?q) \<and> attempt_failed (flaky_store 2 ?q)
      \<and> \<not> attempt_failed (flaky_store 3 ?q)"
    by (simp add: flaky_store_def attempt_failed_def)
  have empty: "attempt_failed (empty_store 1 ?q) \<and> attempt_failed (empty_store 2 ?q)
      \<and> attempt_failed (empty_store 3 ?q)"
    by (simp add: empty_store_def attempt_failed_def)
  have found: "\<not> attempt_failed (found_store 1 ?q)"
    by (simp add: found_store_def attempt_failed_def)
  from lookup_retry [of flaky_store "''california''"] flaky
  have "(\<exists>res rows. flaky_store 3 ?q = Inr res \<and> error res = None \<and> data res = Some rows
                 \<and> rows \<noteq> [] \<and> fst (lookup flaky_store ''california'') = Inr rows)
      \<and> fst (snd (lookup flaky_store ''california'')) = 3
      \<and> announced (snd (snd (lookup flaky_store ''california''))) =
          [querying ''california'' 1, querying ''california'' 2, querying ''california'' 3]"
    by blast
  then have 1: "fst (lookup flaky_store ''california'') = Inr [california]
      \<and> fst (snd (lookup flaky_store ''california'')) = 3
      \<and> announced (snd (snd (lookup flaky_store ''california''))) =
          [''Attempt 1: Querying bounding boxes for state: california'',
           ''Attempt 2: Querying bounding boxes for state: california'',
           ''Attempt 3: Querying bounding boxes for state: california'']"
    unfolding lines by (auto simp: flaky_store_def)
  from lookup_retry [of empty_store "''california''"] empty
  have "fst (lookup empty_store ''california'') =
          Inl (thrown (empty_store 3 ?q) ''california'')
      \<and> fst (snd (lookup empty_store ''california'')) = 3"
    by blast
  then have 2: "fst (lookup empty_store ''california'') =
        Inl (Error ''No bounding boxes found for state: california'')
      \<and> fst (snd (lookup empty_store ''california'')) = 3"
    by (simp add: thrown_def empty_store_def)
  from lookup_retry [of found_store "''california''"] found
  have "(\<exists>res rows. found_store 1 ?q = Inr res \<and> error res = None \<and> data res = Some rows
                 \<and> rows \<noteq> [] \<and> fst (lookup found_store ''california'') = Inr rows)
      \<and> fst (snd (lookup found_store ''california'')) = 1"
    by blast
  then have 3: "fst (lookup found_store ''california'') = Inr [california]
      \<and> fst (snd (lookup found_store ''california'')) = 1"
    by (auto simp: found_store_def)
  from 1 2 3 show ?thesis by blast
qed

text \<open>
  Claim C10. The check after the loop never fires. Started with \<open>attempt = 0\<close> and
  \<open>boundingBoxes = null\<close>, the loop either rethrows or leaves through \<open>break\<close> with a
  non-empty array in \<open>boundingBoxes\<close>; it never ends with \<open>null\<close> or with an empty
  array. So every error of the lookup is one the loop rethrew, and the error
  \<open>Bounding boxes data is null\<close> of the check is never raised.
\<close>

theorem null_check_unreachable:
  "fst (retry_loop store state 0 None []) \<noteq> Inr None
 \<and> fst (retry_loop store state 0 None []) \<noteq> Inr (Some [])
 \<and> (fst (lookup store state) = Inl err \<longleftrightarrow> fst (retry_loop store state 0 None []) = Inl err)"
proof -
  have lt: "(0::nat) < maxRetries" by (simp add: maxRetries_def)
  have 1: "fst (retry_loop store state 0 None []) \<noteq> Inr None"
    using retry_loop_exit [of store state 0 None "[]" None] lt by auto
  have 2: "fst (retry_loop store state 0 None []) \<noteq> Inr (Some [])"
    using retry_loop_exit [of store state 0 None "[]" "Some []"] lt by auto
  have 3: "fst (lookup store state) = Inl err \<longleftrightarrow> fst (retry_loop store state 0 None []) = Inl err"
  proof (cases "fst (retry_loop store state 0 None [])")
    case (Inl e)
    then show ?thesis using lookup_Inl [of store state e] by simp
  next
    case (Inr r)
    with 1 obtain rows where "r = Some rows" by (cases r) auto
    with Inr show ?thesis using lookup_Inr [of store state rows] by simp
  qed
  from 1 2 3 show ?thesis by (intro conjI)
qed

theorem null_check_unreachable_witness:
  "fst (retry_loop broken_store ''california'' 0 None []) = Inl (Error ''connection refused'')
 \<and> fst (lookup broken_store ''california'') = Inl (Error ''connection refused'')"
proof -
  have lt: "(2::nat) + 1 = maxRetries" by (simp add: maxRetries_def)
  have f: "attempt_failed (broken_store n (boundingBoxesQuery ''california''))" for n
    by (simp add: broken_store_def attempt_failed_def)
  from retry_two_failures [of broken_store "''california''", OF f f] obtain bb c
    where 2: "retry_loop broken_store ''california'' 0 None [] =
              retry_loop broken_store ''california'' 2 bb c" by blast
  from retry_loop_exhausted [of 2 broken_store "''california''" bb c, OF lt f]
  have "fst (retry_loop broken_store ''california'' 2 bb c) = Inl (Error ''connection refused'')"
    by (auto simp: thrown_def broken_store_def)
  with 2 have l: "fst (retry_loop broken_store ''california'' 0 None []) =
                  Inl (Error ''connection refused'')" by simp
  with null_check_unreachable [of broken_store "''california''" "Error ''connection refused''"]
  show ?thesis by simp
qed

text \<open>
  Claim C7, as stated, fails: the error that reaches the caller after three attempts
  without rows has the message \<open>No bounding boxes found for state: california\<close>. It names
  the state and not the number of attempts.
\<close>

theorem exhausted_error_omits_attempt_count:
  "lookup empty_store ''california'' =
     (Inl (Error ''No bounding boxes found for state: california''), 3,
      [Log ''Attempt 1: Querying bounding boxes for state: california'',
       LogResult ''Attempt 1: Query result:'' (Some []),
       Warn ''Attempt 1: No bounding boxes found for state: california'',
       Log ''Attempt 2: Querying bounding boxes for state: california'',
       LogResult ''Attempt 2: Query result:'' (Some []),
       Warn ''Attempt 2: No bounding boxes found for state: california'',
       Log ''Attempt 3: Querying bounding boxes for state: california'',
       LogResult ''Attempt 3: Query result:'' (Some []),
       Warn ''Attempt 3: No bounding boxes found for state: california'',
       ConsoleError
         ''Failed after 3 attempts: No bounding boxes found for state: california''])
 \<and> sublist ''california'' ''No bounding boxes found for state: california''
 \<and> \<not> sublist (toString maxRetries) ''No bounding boxes found for state: california''
 \<and> \<not> sublist ''three'' ''No bounding boxes found for state: california''"
proof -
  have 1: "lookup empty_store ''california'' =
     (Inl (Error ''No bounding boxes found for state: california''), 3,
      [Log ''Attempt 1: Querying bounding boxes for state: california'',
       LogResult ''Attempt 1: Query result:'' (Some []),
       Warn ''Attempt 1: No bounding boxes found for state: california'',
       Log ''Attempt 2: Querying bounding boxes for state: california'',
       LogResult ''Attempt 2: Query result:'' (Some []),
       Warn ''Attempt 2: No bounding boxes found for state: california'',
       Log ''Attempt 3: Querying bounding boxes for state: california'',
       LogResult ''Attempt 3: Query result:'' (Some []),
       Warn ''Attempt 3: No bounding boxes found for state: california'',
       ConsoleError
         ''Failed after 3 attempts: No bounding boxes found for state: california''])"
    by code_simp
  have "''No bounding boxes found for state: california'' =
        ''No bounding boxes found for state: '' @ ''california''"
    by simp
  then have 4: "sublist ''california'' ''No bounding boxes found for state: california''"
    by (simp only: sublist_append_leftI)
  have 5: "\<not> sublist (toString maxRetries) ''No bounding boxes found for state: california''"
  proof
    assume "sublist (toString maxRetries) ''No bounding boxes found for state: california''"
    then have "sublist ''3'' ''No bounding boxes found for state: california''"
      by (simp only: toString_maxRetries)
    then have "set ''3'' \<subseteq> set ''No bounding boxes found for state: california''"
      by (rule set_mono_sublist)
    then show False by simp
  qed
  have 6: "\<not> sublist ''three'' ''No bounding boxes found for state: california''"
  proof
    assume "sublist ''three'' ''No bounding boxes found for state: california''"
    then have "set ''three'' \<subseteq> set ''No bounding boxes found for state: california''"
      by (rule set_mono_sublist)
    then show False by simp
  qed
  from 1 4 5 6 show ?thesis by (intro conjI)
qed

text \<open>
  Claim C7, amended. When all three attempts fail, the error that reaches the caller is
  the value the third attempt threw: the rejection or the error object of the database
  when the query errored, and otherwise an \<open>Error\<close> whose message is
  \<open>No bounding boxes found for state: \<close> followed by the state, which names the state
  and nothing else. The number of attempts is named in the last line written to the
  console, \<open>Failed after 3 attempts: \<close> followed by that message.
\<close>

theorem exhausted_error_message:
  fixes store :: "'m store" and state :: string
  defines "q \<equiv> boundingBoxesQuery state"
  assumes "attempt_failed (store 1 q)" "attempt_failed (store 2 q)" "attempt_failed (store 3 q)"
  shows "\<exists>err c.
      lookup store state =
        (Inl err, 3, c @ [ConsoleError (''Failed after 3 attempts: '' @ message err)])
    \<and> (\<forall>rejected. store 3 q = Inl rejected \<longrightarrow> err = rejected)
    \<and> (\<forall>res e. store 3 q = Inr res \<and> error res = Some e \<longrightarrow> err = e)
    \<and> (\<forall>res. store 3 q = Inr res \<and> error res = None \<longrightarrow>
          err = Error (''No bounding boxes found for state: '' @ state)
          \<and> sublist state (message err))
    \<and> sublist (toString maxRetries) (''Failed after 3 attempts: '' @ message err)"
proof -
  have lt: "(2::nat) + 1 = maxRetries" by (simp add: maxRetries_def)
  define err where "err = thrown (store 3 q) state"
  from retry_two_failures [of store state] assms(2,3) obtain bb c
    where 2: "retry_loop store state 0 None [] = retry_loop store state 2 bb c"
    unfolding q_def by blast
  from retry_loop_exhausted [of 2 store state bb c, OF lt] assms(4)
  obtain c' where "retry_loop store state 2 bb c =
      (Inl err, 3, c' @ [ConsoleError (''Failed after '' @ toString maxRetries @ '' attempts: '' @
                    message err)])"
    unfolding nat_steps q_def err_def by blast
  with 2 have l: "retry_loop store state 0 None [] =
      (Inl err, 3, c' @ [ConsoleError (''Failed after 3 attempts: '' @ message err)])"
    by (simp add: toString_maxRetries)
  then have 1: "lookup store state =
        (Inl err, 3, c' @ [ConsoleError (''Failed after 3 attempts: '' @ message err)])"
    by (simp add: lookup_def)
  have a: "\<forall>rejected. store 3 q = Inl rejected \<longrightarrow> err = rejected"
    by (simp add: err_def thrown_def)
  have b: "\<forall>res e. store 3 q = Inr res \<and> error res = Some e \<longrightarrow> err = e"
    by (simp add: err_def thrown_def)
  have c: "\<forall>res. store 3 q = Inr res \<and> error res = None \<longrightarrow>
          err = Error (''No bounding boxes found for state: '' @ state)
          \<and> sublist state (message err)"
  proof (intro allI impI)
    fix res
    assume "store 3 q = Inr res \<and> error res = None"
    then have e: "err = Error (''No bounding boxes found for state: '' @ state)"
      by (simp add: err_def thrown_def)
    then have "message err = ''No bounding boxes found for state: '' @ state"
      by (simp only: js_error.sel)
    then have "sublist state (message err)"
      by (simp only: sublist_append_leftI)
    with e show "err = Error (''No bounding boxes found for state: '' @ state)
          \<and> sublist state (message err)" by (intro conjI)
  qed
  have "''Failed after 3 attempts: '' @ message err =
        ''Failed after '' @ ''3'' @ ('' attempts: '' @ message err)"
    by simp
  then have d: "sublist (toString maxRetries) (''Failed after 3 attempts: '' @ message err)"
    by (simp only: toString_maxRetries sublist_appendI)
  show ?thesis
  proof (intro exI conjI)
    show "lookup store state =
        (Inl err, 3, c' @ [ConsoleError (''Failed after 3 attempts: '' @ message err)])"
      by (fact 1)
  qed (fact a b c d)+
qed

theorem exhausted_error_message_witness:
  "\<exists>c. lookup empty_store ''california'' =
     (Inl (Error ''No bounding boxes found for state: california''), 3,
      c @ [ConsoleError
             ''Failed after 3 attempts: No bounding boxes found for state: california''])"
proof -
  have f: "attempt_failed (empty_store n (boundingBoxesQuery ''california''))" for n
    by (simp add: empty_store_def attempt_failed_def)
  have e: "empty_store 3 (boundingBoxesQuery ''california'') =
             Inr \<lparr>data = Some [], error = None\<rparr>
           \<and> error \<lparr>data = Some [], error = None\<rparr> = None"
    by (simp add: empty_store_def)
  from exhausted_error_message [of empty_store "''california''", OF f f f]
  obtain err c where r: "lookup empty_store ''california'' =
        (Inl err, 3, c @ [ConsoleError (''Failed after 3 attempts: '' @ message err)])"
      and m: "\<forall>res. empty_store 3 (boundingBoxesQuery ''california'') = Inr res \<and> error res = None
             \<longrightarrow> err = Error (''No bounding boxes found for state: '' @ ''california'')
                \<and> sublist ''california'' (message err)"
    by blast
  from m e have "err = Error (''No bounding boxes found for state: '' @ ''california'')"
    by blast
  then have err: "err = Error ''No bounding boxes found for state: california''"
    by simp
  from r show ?thesis
    unfolding err by simp
qed

section \<open>Properties of the searches and of the tool\<close>

lemma contribution_callback:
  "nearbySearch_callback results status = contribution (results, status)"
  by (cases results; cases status) (simp_all add: nearbySearch_callback_def contribution_def)

lemma search_from_eq:
  "search_from places i boxes =
   map (\<lambda>k. contribution (places (i + k) (searchRequest (boxes ! k)))) [0..<length boxes]"
proof (induction boxes arbitrary: i)
  case Nil
  show ?case by simp
next
  case (Cons box boxes)
  have "map (\<lambda>k. contribution (places (i + k) (searchRequest ((box # boxes) ! k))))
          [0..<length (box # boxes)] =
        contribution (places i (searchRequest box)) #
        map (\<lambda>k. contribution (places (Suc i + k) (searchRequest (boxes ! k)))) [0..<length boxes]"
    by (simp add: upt_conv_Cons map_Suc_upt [symmetric] del: upt_Suc)
  with Cons.IH [of "Suc i"] show ?case
    by (simp add: contribution_callback split: prod.splits)
qed

lemma searchResults_eq:
  "searchResults places boxes =
   map (\<lambda>k. contribution (places k (searchRequest (boxes ! k)))) [0..<length boxes]"
  using search_from_eq [of places 0 boxes] by (simp add: searchResults_def)

lemma found_store_lookup: "fst (lookup found_store ''california'') = Inr [california]"
proof -
  have "\<not> attempt_failed (found_store 1 (boundingBoxesQuery ''california''))"
    by (simp add: found_store_def attempt_failed_def)
  from lookup_first_success [of found_store "''california''", OF this] show ?thesis
    by (auto simp: found_store_def)
qed

lemma example_searches:
  "map (\<lambda>k. contribution (example_places k (searchRequest (dividedBoundingBoxes [california] ! k))))
     [0..<length (dividedBoundingBoxes [california])] = [[''a'', ''b''], [], [''c''], []]"
proof -
  have "[0..<4] = [0, 1, 2, 3::nat]" by code_simp
  then show ?thesis
    unfolding california_quadrants
    by (simp add: example_places_def contribution_def)
qed

text \<open>
  Claim C2. The searches resolve with one list per quadrant, in the order of the
  quadrants: the place ids of the service in its order when it reports \<open>OK\<close> with
  results, the empty list otherwise. The output is the concatenation of these lists,
  duplicates included, so its length is the sum of their lengths; a failed search adds
  nothing. In a runtime where \<open>google\<close> and \<open>document\<close> are bound, so that there is a
  service to answer, the tool returns this concatenation as its value. In the example of
  the specification the output is \<open>[a, b, c]\<close>.
\<close>

theorem search_aggregation:
  fixes places :: places and boxes :: "quadrant list" and store :: "'m store"
  defines "per_quadrant \<equiv>
    map (\<lambda>k. contribution (places k (searchRequest (boxes ! k)))) [0..<length boxes]"
  shows "searchResults places boxes = per_quadrant
     \<and> flat (searchResults places boxes) = concat per_quadrant
     \<and> length (flat (searchResults places boxes)) = sum_list (map length per_quadrant)
     \<and> (\<forall>k<length boxes.
          fst (places k (searchRequest (boxes ! k))) = None
          \<or> snd (places k (searchRequest (boxes ! k))) \<noteq> OK
          \<longrightarrow> searchResults places boxes ! k = [])
     \<and> (\<forall>k<length boxes. \<forall>results.
          places k (searchRequest (boxes ! k)) = (Some results, OK)
          \<longrightarrow> searchResults places boxes ! k = map place_id results)
     \<and> (\<forall>rows.
          google runtime = Some places \<and> document runtime
          \<and> fst (lookup store state) = Inr rows \<and> dividedBoundingBoxes rows = boxes
          \<longrightarrow> boundingBoxesTool store runtime state = Inr (concat per_quadrant))"
proof -
  have 1: "searchResults places boxes = per_quadrant"
    unfolding per_quadrant_def by (rule searchResults_eq)
  have 2: "flat (searchResults places boxes) = concat per_quadrant"
    by (simp add: 1 flat_def)
  have 3: "length (flat (searchResults places boxes)) = sum_list (map length per_quadrant)"
    by (simp add: 2 length_concat)
  have 4: "\<forall>k<length boxes.
          fst (places k (searchRequest (boxes ! k))) = None
          \<or> snd (places k (searchRequest (boxes ! k))) \<noteq> OK
          \<longrightarrow> searchResults places boxes ! k = []"
    by (auto simp: 1 per_quadrant_def contribution_def
          split: prod.splits option.splits PlacesServiceStatus.splits)
  have 5: "\<forall>k<length boxes. \<forall>results.
          places k (searchRequest (boxes ! k)) = (Some results, OK)
          \<longrightarrow> searchResults places boxes ! k = map place_id results"
    by (simp add: 1 per_quadrant_def contribution_def)
  have 6: "\<forall>rows.
          google runtime = Some places \<and> document runtime
          \<and> fst (lookup store state) = Inr rows \<and> dividedBoundingBoxes rows = boxes
          \<longrightarrow> boundingBoxesTool store runtime state = Inr (concat per_quadrant)"
    by (auto simp: boundingBoxesTool_def Let_def 2)
  from 1 2 3 4 5 6 show ?thesis by (intro conjI)
qed

theorem search_aggregation_witness:
  "searchResults example_places (dividedBoundingBoxes [california]) =
     [[''a'', ''b''], [], [''c''], []]
 \<and> flat (searchResults example_places (dividedBoundingBoxes [california])) = [''a'', ''b'', ''c'']
 \<and> boundingBoxesTool found_store (page_runtime example_places) ''california'' =
     Inr [''a'', ''b'', ''c'']"
proof -
  let ?boxes = "dividedBoundingBoxes [california]"
  have page: "google (page_runtime example_places) = Some example_places"
    "document (page_runtime example_places)"
    by (simp_all add: page_runtime_def)
  note t = search_aggregation [of example_places ?boxes "page_runtime example_places"
      found_store "''california''", unfolded example_searches]
  from t have 1: "searchResults example_places ?boxes = [[''a'', ''b''], [], [''c''], []]"
    by (rule conjunct1)
  from t have 2: "flat (searchResults example_places ?boxes) =
                  concat [[''a'', ''b''], [], [''c''], []]"
    by (rule conjunct2 [THEN conjunct1])
  from t have "\<forall>rows.
          google (page_runtime example_places) = Some example_places
          \<and> document (page_runtime example_places)
          \<and> fst (lookup found_store ''california'') = Inr rows
          \<and> dividedBoundingBoxes rows = ?boxes
          \<longrightarrow> boundingBoxesTool found_store (page_runtime example_places) ''california'' =
              Inr (concat [[''a'', ''b''], [], [''c''], []])"
    by (rule conjunct2 [THEN conjunct2, THEN conjunct2, THEN conjunct2, THEN conjunct2])
  with page found_store_lookup
  have 3: "boundingBoxesTool found_store (page_runtime example_places) ''california'' =
           Inr (concat [[''a'', ''b''], [], [''c''], []])"
    by blast
  from 1 2 3 show ?thesis by simp
qed

text \<open>
  In a runtime where both globals are bound the tool throws exactly when all three
  attempts of the lookup fail, and otherwise returns the flattened search results.
\<close>

lemma lookup_succeeds:
  fixes store :: "'m store"
  assumes "\<not> attempt_failed (store 1 (boundingBoxesQuery state))
         \<or> \<not> attempt_failed (store 2 (boundingBoxesQuery state))
         \<or> \<not> attempt_failed (store 3 (boundingBoxesQuery state))"
  shows "\<exists>rows. fst (lookup store state) = Inr rows \<and> rows \<noteq> []"
proof (cases "attempt_failed (store 1 (boundingBoxesQuery state))")
  case False
  from lookup_first_success [of store state, OF this] show ?thesis by blast
next
  case f1: True
  show ?thesis
  proof (cases "attempt_failed (store 2 (boundingBoxesQuery state))")
    case False
    from lookup_second_success [of store state, OF f1 this] show ?thesis by blast
  next
    case f2: True
    with f1 assms have "\<not> attempt_failed (store 3 (boundingBoxesQuery state))" by blast
    from lookup_third_success [of store state, OF f1 f2 this] show ?thesis by blast
  qed
qed

lemma tool_with_globals:
  fixes store :: "'m store"
  assumes "google runtime = Some places" "document runtime"
  shows "(\<exists>err. boundingBoxesTool store runtime state = Inl err) \<longleftrightarrow>
           attempt_failed (store 1 (boundingBoxesQuery state))
           \<and> attempt_failed (store 2 (boundingBoxesQuery state))
           \<and> attempt_failed (store 3 (boundingBoxesQuery state))"
proof (cases "attempt_failed (store 1 (boundingBoxesQuery state))
           \<and> attempt_failed (store 2 (boundingBoxesQuery state))
           \<and> attempt_failed (store 3 (boundingBoxesQuery state))")
  case True
  with lookup_all_failed [of store state] show ?thesis
    by (auto simp: boundingBoxesTool_def)
next
  case False
  with lookup_succeeds [of store state] assms show ?thesis
    by (auto simp: boundingBoxesTool_def Let_def)
qed

lemma tool_without_google:
  assumes "fst (lookup store state) = Inr rows" "google runtime = None"
  shows "boundingBoxesTool store runtime state = Inl (Error ''google is not defined'')"
  using assms by (simp add: boundingBoxesTool_def Let_def)

text \<open>
  Claim C4 is not met by the code. Whenever one of the three attempts succeeds, the
  lookup returns rows and the retry budget is not exhausted; in a runtime where \<open>google\<close>
  is unbound, as in the server action that imports the tool, the statement that creates
  the map then throws \<open>google is not defined\<close>, and the tool fails instead of returning
  a list.
\<close>

theorem tool_throws_after_successful_lookup:
  fixes store :: "'m store"
  assumes "\<not> attempt_failed (store 1 (boundingBoxesQuery state))
         \<or> \<not> attempt_failed (store 2 (boundingBoxesQuery state))
         \<or> \<not> attempt_failed (store 3 (boundingBoxesQuery state))"
    and "google runtime = None"
  shows "(\<exists>rows. fst (lookup store state) = Inr rows \<and> rows \<noteq> [])
       \<and> boundingBoxesTool store runtime state = Inl (Error ''google is not defined'')"
proof -
  from lookup_succeeds [of store state, OF assms(1)]
  obtain rows where r: "fst (lookup store state) = Inr rows" "rows \<noteq> []" by blast
  from tool_without_google [OF r(1) assms(2)] r show ?thesis by blast
qed

text \<open>
  The state \<open>california\<close> with a store whose first query finds the box, in the runtime of
  the server action: the lookup succeeds at its first attempt and the tool throws.
\<close>

theorem tool_throws_after_successful_lookup_witness:
  "lookup found_store ''california'' =
     (Inr [california], 1,
      [Log ''Attempt 1: Querying bounding boxes for state: california'',
       LogResult ''Attempt 1: Query result:'' (Some [california])])
 \<and> boundingBoxesTool found_store server_runtime ''california'' =
     Inl (Error ''google is not defined'')"
proof -
  have ok: "\<not> attempt_failed (found_store 1 (boundingBoxesQuery ''california''))
         \<or> \<not> attempt_failed (found_store 2 (boundingBoxesQuery ''california''))
         \<or> \<not> attempt_failed (found_store 3 (boundingBoxesQuery ''california''))"
    by (simp add: found_store_def attempt_failed_def)
  have unbound: "google server_runtime = None"
    by (simp add: server_runtime_def)
  have body: "try_body found_store ''california'' 1 None [] =
     (Inr (), Some [california],
      [Log ''Attempt 1: Querying bounding boxes for state: california'',
       LogResult ''Attempt 1: Query result:'' (Some [california])])"
    by (simp add: try_body_def found_store_def toString_unfold digit_def Let_def)
  have "retry_loop found_store ''california'' 0 None [] =
     (Inr (Some [california]), 1,
      [Log ''Attempt 1: Querying bounding boxes for state: california'',
       LogResult ''Attempt 1: Query result:'' (Some [california])])"
    unfolding retry_loop_unrolled body by simp
  then have 1: "lookup found_store ''california'' =
     (Inr [california], 1,
      [Log ''Attempt 1: Querying bounding boxes for state: california'',
       LogResult ''Attempt 1: Query result:'' (Some [california])])"
    by (simp add: lookup_def)
  from tool_throws_after_successful_lookup [of found_store "''california''" server_runtime,
      OF ok unbound]
  have 2: "boundingBoxesTool found_store server_runtime ''california'' =
     Inl (Error ''google is not defined'')"
    by (rule conjunct2)
  from 1 2 show ?thesis by (intro conjI)
qed

end
